theory Spec2Isabelle
  imports Main "HOL-Library.Word" "HOL-Library.Signed_Division" "HOL-Library.Sublist"
begin

unbundle bit_operations_syntax

section \<open>Values of the C program\<close>

text \<open>
  \<open>convert.c\<close> is a single C file on top of libclang. The model below follows it function
  by function. A C \<open>int\<close> is a 32-bit word read with \<open>sint\<close>; an \<open>unsigned\<close> that only counts
  or indexes is a \<open>nat\<close> (with the wrap-around written out where the code can reach it), and
  the line and column numbers libclang reports are 32-bit words.

  A run of the program ends in one of three abnormal ways, besides returning normally:
  \<^item> \<open>Fatal msg\<close>: \<open>fprintf(stderr, msg); exit(1)\<close>;
  \<^item> \<open>Assertion e\<close>: an \<open>assert(e)\<close> that does not hold (the process aborts);
  \<^item> \<open>Undefined what\<close>: the C code reaches an operation the language leaves undefined
    (a read or write outside an array, a division by zero, \<open>atoi\<close> out of range).

  Memory allocation is taken to succeed: the counters \<open>n_allocated_*\<close>, which only decide
  when \<open>realloc\<close> is called, are not part of the model, and an array of \<open>n\<close> used entries is
  a list of length \<open>n\<close>.
\<close>

type_synonym c_int = "32 word"
type_synonym c_unsigned = "32 word"

datatype failure = Fatal string | Assertion string | Undefined string

abbreviation nl :: char where "nl \<equiv> CHR 0x0A"

subsection \<open>\<open>printf\<close> conversions\<close>

fun decimal :: "nat \<Rightarrow> string" where
  "decimal n =
     (if n < 10 then [''0123456789'' ! n]
      else decimal (n div 10) @ [''0123456789'' ! (n mod 10)])"

declare decimal.simps [simp del]

definition printf_d :: "int \<Rightarrow> string" where
  \<comment> \<open>what \<open>%d\<close> prints for an \<open>int\<close>\<close>
  "printf_d i = (if i < 0 then CHR ''-'' # decimal (nat (- i)) else decimal (nat i))"

subsection \<open>libclang: tokens and cursors\<close>

text \<open>
  The parse tree and the tokens come from libclang, which is not part of the repository; the
  model takes them as data. A token carries what \<open>clang_getTokenSpelling\<close> and
  \<open>clang_getSpellingLocation\<close> return for it. A \<open>CXCursor\<close> is compared bytewise by the
  program (\<open>memcmp\<close>): it is its kind together with the words that identify the AST node.
  The numeric value of a cursor kind (printed with \<open>%d\<close>) is the one of \<open>clang-c/Index.h\<close>;
  kinds the program does not name are \<open>OtherKind\<close> with that value.
\<close>

record CXToken =
  tok_spelling :: string
  tok_line :: c_unsigned
  tok_column :: c_unsigned

datatype CXCursorKind =
    StructDecl | EnumDecl | FieldDecl | EnumConstantDecl | TypedefDecl
  | TypeRef | MemberRef | UnexposedExpr | DeclRefExpr | IntegerLiteral
  | BinaryOperator | CompoundLiteralExpr | InitListExpr | OtherKind int

fun kind_code :: "CXCursorKind \<Rightarrow> int" where
  "kind_code StructDecl = 2"
| "kind_code EnumDecl = 5"
| "kind_code FieldDecl = 6"
| "kind_code EnumConstantDecl = 7"
| "kind_code TypedefDecl = 20"
| "kind_code TypeRef = 43"
| "kind_code MemberRef = 47"
| "kind_code UnexposedExpr = 100"
| "kind_code DeclRefExpr = 101"
| "kind_code IntegerLiteral = 106"
| "kind_code BinaryOperator = 114"
| "kind_code CompoundLiteralExpr = 118"
| "kind_code InitListExpr = 119"
| "kind_code (OtherKind k) = k"

record CXCursor =
  kind :: CXCursorKind
  data :: nat

text \<open>
  A node of the tree: the cursor, its spelling (\<open>clang_getCursorSpelling\<close>), the tokens of
  its extent (\<open>clang_tokenize\<close> of \<open>clang_getCursorExtent\<close>), the line, column and file name
  of its location, and its children in the order \<open>clang_visitChildren\<close> presents them.
\<close>

datatype node =
  Node (cursor: CXCursor) (spelling: string) (extent: "CXToken list")
       (loc_line: c_unsigned) (loc_column: c_unsigned) (loc_file: string) (children: "node list")

subsection \<open>The registries\<close>

text \<open>
  A pointer into the struct or enum table is the index of the entry (\<open>None\<close> is \<open>NULL\<close>); a
  \<open>char *\<close> that may be \<open>NULL\<close> is a \<open>string option\<close>.
\<close>

record StructMember =
  sm_type :: string
  sm_name :: string
  sm_n_ptrs :: nat
  sm_array_size :: nat
  sm_cursor :: CXCursor

record StructDeclaration =
  sd_entries :: "StructMember list"
  sd_name :: string
  sd_cursor :: CXCursor

record EnumMember =
  em_name :: string
  em_value :: c_int
  em_cursor :: CXCursor

record EnumDeclaration =
  ed_entries :: "EnumMember list"
  ed_name :: string
  ed_cursor :: CXCursor

record TypedefDeclaration =
  td_proxy :: "string option"
  td_name :: string
  td_struct_decl :: "nat option"
  td_enum_decl :: "nat option"
  td_cursor :: CXCursor

section \<open>Token helpers\<close>

text \<open>\<open>find_token_index\<close>: the first token spelled \<open>str\<close>, or the fatal diagnostic.\<close>

fun find_token_from :: "CXToken list \<Rightarrow> string \<Rightarrow> nat \<Rightarrow> nat option" where
  "find_token_from [] str n = None"
| "find_token_from (t # ts) str n =
     (if str = tok_spelling t then Some n else find_token_from ts str (Suc n))"

definition find_token_index :: "CXToken list \<Rightarrow> string \<Rightarrow> failure + nat" where
  "find_token_index tokens str =
     (case find_token_from tokens str 0 of
        Some n \<Rightarrow> Inr n
      | None \<Rightarrow> Inl (Fatal (''Could not find token '' @ str @ '' in set'' @ [nl])))"

text \<open>
  \<open>concat_name\<close>: the spellings of \<open>tokens[from..to]\<close>, separated by single spaces. The loop
  reads \<open>tokens[n]\<close> for every \<open>from \<le> n \<le> to\<close>, so an index beyond the array is an
  out-of-range read. When \<open>to < from\<close> the C code allocates zero bytes and writes nothing, not
  even the terminator; the program never reads that block, and the model has the empty text
  in its place.
\<close>

fun join_spellings :: "CXToken list \<Rightarrow> string" where
  "join_spellings [] = []"
| "join_spellings [t] = tok_spelling t"
| "join_spellings (t # ts) = tok_spelling t @ '' '' @ join_spellings ts"

definition concat_name :: "CXToken list \<Rightarrow> nat \<Rightarrow> nat \<Rightarrow> failure + string" where
  "concat_name tokens from to =
     (if to < from then Inr []
      else if length tokens \<le> to then Inl (Undefined ''concat_name: token index out of range'')
      else Inr (join_spellings (take (Suc to - from) (drop from tokens))))"

subsection \<open>\<open>atoi\<close>\<close>

definition isspace :: "char \<Rightarrow> bool" where
  "isspace c = (c = CHR '' '' \<or> (9 :: nat) \<le> of_char c \<and> of_char c \<le> (13 :: nat))"

definition isdigit :: "char \<Rightarrow> bool" where
  "isdigit c = ((48 :: nat) \<le> of_char c \<and> of_char c \<le> (57 :: nat))"

fun digits_value :: "string \<Rightarrow> int \<Rightarrow> int" where
  "digits_value [] acc = acc"
| "digits_value (c # cs) acc =
     (if isdigit c then digits_value cs (10 * acc + (int (of_char c) - 48)) else acc)"

definition int_result :: "int \<Rightarrow> failure + c_int" where
  \<comment> \<open>a value that has to fit a C \<open>int\<close>\<close>
  "int_result r =
     (if - (2 ^ 31) \<le> r \<and> r < 2 ^ 31 then Inr (word_of_int r)
      else Inl (Undefined ''value not representable in int''))"

definition atoi :: "string \<Rightarrow> failure + c_int" where
  "atoi s =
     (case dropWhile isspace s of
        [] \<Rightarrow> Inr 0
      | c # cs \<Rightarrow>
          if c = CHR ''-'' then int_result (- digits_value cs 0)
          else if c = CHR ''+'' then int_result (digits_value cs 0)
          else int_result (digits_value (c # cs) 0))"

section \<open>The constant evaluator\<close>

text \<open>
  \<open>arithmetic_expression\<close>. The operator text must be one character long (the \<open>assert\<close>).
  \<open>+\<close>, \<open>-\<close> and \<open>*\<close> are the 32-bit operations of the machine, two's complement and
  wrapping (C leaves the overflow of a signed operation undefined; the model takes the result
  the usual compilers produce). \<open>/\<close> and \<open>%\<close> are C's truncating division and its
  remainder, applied to the operands as they are: a zero divisor, or the one quotient that
  does not fit (\<open>INT_MIN / -1\<close>), is undefined in C and traps on the usual machines.
\<close>

definition c_div :: "c_int \<Rightarrow> c_int \<Rightarrow> failure + c_int" where
  "c_div a b =
     (if b = 0 then Inl (Undefined ''division by zero'')
      else if sint a = - (2 ^ 31) \<and> sint b = - 1 then Inl (Undefined ''division overflow'')
      else Inr (word_of_int (sint a sdiv sint b)))"

definition c_mod :: "c_int \<Rightarrow> c_int \<Rightarrow> failure + c_int" where
  "c_mod a b =
     (if b = 0 then Inl (Undefined ''division by zero'')
      else if sint a = - (2 ^ 31) \<and> sint b = - 1 then Inl (Undefined ''division overflow'')
      else Inr (word_of_int (sint a smod sint b)))"

definition arithmetic_expression :: "c_int \<Rightarrow> string \<Rightarrow> c_int \<Rightarrow> failure + c_int" where
  "arithmetic_expression val1 expr val2 =
     (case expr of
        [] \<Rightarrow> Inl (Undefined ''expr[1] read past the end of an empty string'')
      | [c] \<Rightarrow>
          if c = CHR ''^'' then Inr (val1 XOR val2)
          else if c = CHR ''|'' then Inr (val1 OR val2)
          else if c = CHR ''&'' then Inr (val1 AND val2)
          else if c = CHR ''+'' then Inr (val1 + val2)
          else if c = CHR ''-'' then Inr (val1 - val2)
          else if c = CHR ''*'' then Inr (val1 * val2)
          else if c = CHR ''/'' then c_div val1 val2
          else if c = CHR ''%'' then c_mod val1 val2
          else Inl (Fatal (''Unknown arithmetic expression '' @ expr @ [nl]))
      | _ \<Rightarrow> Inl (Assertion ''expr[1] == 0''))"

text \<open>
  \<open>find_enum_value\<close>: the two nested loops, over the registered enums and over the
  \<open>n_entries\<close> members of each.
\<close>

fun find_enum_member :: "EnumMember list \<Rightarrow> string \<Rightarrow> c_int option" where
  "find_enum_member [] str = None"
| "find_enum_member (m # ms) str =
     (if em_name m = str then Some (em_value m) else find_enum_member ms str)"

fun find_enum_in :: "EnumDeclaration list \<Rightarrow> string \<Rightarrow> c_int option" where
  "find_enum_in [] str = None"
| "find_enum_in (d # ds) str =
     (case find_enum_member (ed_entries d) str of
        Some v \<Rightarrow> Some v
      | None \<Rightarrow> find_enum_in ds str)"

definition find_enum_value :: "EnumDeclaration list \<Rightarrow> string \<Rightarrow> failure + c_int" where
  "find_enum_value enums str =
     (case find_enum_in enums str of
        Some v \<Rightarrow> Inr v
      | None \<Rightarrow> Inl (Fatal (''Unknown enum value '' @ str @ [nl])))"

text \<open>
  \<open>fill_enum_value\<close> writes into \<open>int cache[3]\<close>: \<open>cache[0]\<close> counts the values stored in
  \<open>cache[1]\<close> and \<open>cache[2]\<close>. The model keeps the stored values as a list, whose length is
  \<open>cache[0]\<close>; a third store would write \<open>cache[3]\<close>, outside the array. The visitor always
  returns \<open>CXChildVisit_Continue\<close>, so \<open>clang_visitChildren\<close> calls it on each child in turn
  and descends only where the visitor itself does.
\<close>

definition store :: "c_int list \<Rightarrow> c_int \<Rightarrow> failure + c_int list" where
  "store ptr v =
     (if length ptr < 2 then Inr (ptr @ [v])
      else Inl (Undefined ''write past the end of cache''))"

fun fill_enum_value :: "EnumDeclaration list \<Rightarrow> node \<Rightarrow> c_int list \<Rightarrow> failure + c_int list"
  and visit_fill_enum_value ::
    "EnumDeclaration list \<Rightarrow> node list \<Rightarrow> c_int list \<Rightarrow> failure + c_int list" where
  "fill_enum_value enums (Node c str tokens l co f cs) ptr =
     (if kind c = BinaryOperator then
        if length tokens \<noteq> 4 then Inl (Assertion ''n_tokens == 4'')
        else (case visit_fill_enum_value enums cs [] of
                Inl e \<Rightarrow> Inl e
              | Inr cache \<Rightarrow>
                  if length cache \<noteq> 2 then Inl (Assertion ''cache[0] == 2'')
                  else (case arithmetic_expression (cache ! 0) (tok_spelling (tokens ! 1))
                               (cache ! 1) of
                          Inl e \<Rightarrow> Inl e
                        | Inr v \<Rightarrow> store ptr v))
      else if kind c = IntegerLiteral then
        if length tokens \<noteq> 2 then Inl (Assertion ''n_tokens == 2'')
        else (case atoi (tok_spelling (tokens ! 0)) of
                Inl e \<Rightarrow> Inl e
              | Inr v \<Rightarrow> store ptr v)
      else if kind c = DeclRefExpr then
        if length tokens \<noteq> 2 then Inl (Assertion ''n_tokens == 2'')
        else (case find_enum_value enums (tok_spelling (tokens ! 0)) of
                Inl e \<Rightarrow> Inl e
              | Inr v \<Rightarrow> store ptr v)
      else Inr ptr)"
| "visit_fill_enum_value enums [] ptr = Inr ptr"
| "visit_fill_enum_value enums (n # ns) ptr =
     (case fill_enum_value enums n ptr of
        Inl e \<Rightarrow> Inl e
      | Inr ptr' \<Rightarrow> visit_fill_enum_value enums ns ptr')"

section \<open>The symbol table\<close>

subsection \<open>Enums\<close>

text \<open>
  \<open>fill_enum_members\<close> fills \<open>enums[k]\<close>, the declaration \<open>register_enum\<close> has just
  appended. While a member's initializer is evaluated the member is not yet counted in
  \<open>n_entries\<close>, so \<open>find_enum_value\<close> sees the members before it.
\<close>

definition fill_enum_members ::
    "EnumDeclaration list \<Rightarrow> nat \<Rightarrow> node \<Rightarrow> failure + EnumDeclaration list" where
  "fill_enum_members enums k nd =
     (if kind (cursor nd) = EnumConstantDecl then
        let decl = enums ! k; n = length (ed_entries decl) in
        (case visit_fill_enum_value enums (children nd) [] of
           Inl e \<Rightarrow> Inl e
         | Inr cache \<Rightarrow>
             if 1 < length cache then Inl (Assertion ''cache[0] <= 1'')
             else
               let v = (if length cache = 1 then cache ! 0
                        else if n = 0 then 0
                        else em_value (ed_entries decl ! (n - 1)) + 1)
               in Inr (enums[k := decl\<lparr>ed_entries := ed_entries decl @
                         [\<lparr>em_name = spelling nd, em_value = v, em_cursor = cursor nd\<rparr>]\<rparr>]))
      else Inr enums)"

fun visit_fill_enum_members ::
    "EnumDeclaration list \<Rightarrow> nat \<Rightarrow> node list \<Rightarrow> failure + EnumDeclaration list" where
  "visit_fill_enum_members enums k [] = Inr enums"
| "visit_fill_enum_members enums k (n # ns) =
     (case fill_enum_members enums k n of
        Inl e \<Rightarrow> Inl e
      | Inr enums' \<Rightarrow> visit_fill_enum_members enums' k ns)"

text \<open>
  The search loop of \<open>register_enum\<close>: the first entry with the same name whose cursor
  differs bytewise (\<open>memcmp\<close> is non-zero) from the one being registered.
\<close>

fun find_enum_decl :: "EnumDeclaration list \<Rightarrow> string \<Rightarrow> CXCursor \<Rightarrow> nat \<Rightarrow> nat option" where
  "find_enum_decl [] str c n = None"
| "find_enum_decl (d # ds) str c n =
     (if ed_name d = str \<and> c \<noteq> ed_cursor d then Some n
      else find_enum_decl ds str c (Suc n))"

definition register_enum ::
    "string \<Rightarrow> node \<Rightarrow> TypedefDeclaration option \<Rightarrow> EnumDeclaration list \<Rightarrow>
     failure + (TypedefDeclaration option \<times> EnumDeclaration list)" where
  "register_enum str nd decl_ptr enums =
     (case find_enum_decl enums str (cursor nd) 0 of
        Some n \<Rightarrow> Inr (map_option (\<lambda>d. d\<lparr>td_enum_decl := Some n\<rparr>) decl_ptr, enums)
      | None \<Rightarrow>
          let k = length enums;
              decl = \<lparr>ed_entries = [], ed_name = str, ed_cursor = cursor nd\<rparr>
          in (case visit_fill_enum_members (enums @ [decl]) k (children nd) of
                Inl e \<Rightarrow> Inl e
              | Inr enums' \<Rightarrow>
                  Inr (map_option (\<lambda>d. d\<lparr>td_enum_decl := Some k\<rparr>) decl_ptr, enums')))"

subsection \<open>Structs\<close>

text \<open>
  The pointer-counting loop of \<open>fill_struct_members\<close> reads \<open>tokens[idx - 1 - n_ptrs]\<close>; the
  index is unsigned, so with \<open>idx < 1 + n_ptrs\<close> it wraps around to a read far outside the
  token array.
\<close>

function count_ptrs :: "CXToken list \<Rightarrow> nat \<Rightarrow> nat \<Rightarrow> failure + nat" where
  "count_ptrs tokens idx n_ptrs =
     (if idx < 1 + n_ptrs \<or> length tokens \<le> idx - 1 - n_ptrs
        then Inl (Undefined ''token index out of range'')
      else if tok_spelling (tokens ! (idx - 1 - n_ptrs)) = ''*''
        then count_ptrs tokens idx (Suc n_ptrs)
      else Inr n_ptrs)"
  by pat_completeness auto
termination
  by (relation "measure (\<lambda>(tokens, idx, n_ptrs). idx - n_ptrs)") auto

declare count_ptrs.simps [simp del]

definition array_suffix :: "CXToken list \<Rightarrow> nat \<Rightarrow> failure + nat" where
  \<comment> \<open>the block that sets \<open>array_size\<close>: \<open>atoi\<close> of the token after a \<open>[\<close> that follows the name\<close>
  "array_suffix tokens idx =
     (if length tokens \<le> idx + 1 then Inl (Undefined ''token index out of range'')
      else if tok_spelling (tokens ! (idx + 1)) = ''[''
        then if length tokens \<le> idx + 2 then Inl (Undefined ''token index out of range'')
             else (case atoi (tok_spelling (tokens ! (idx + 2))) of
                     Inl e \<Rightarrow> Inl e
                   | Inr v \<Rightarrow> Inr (unat v))
      else Inr 0)"

definition base_type :: "StructMember list \<Rightarrow> CXToken list \<Rightarrow> nat \<Rightarrow> failure + string" where
  \<comment> \<open>the block that sets \<open>type\<close>; \<open>im1\<close> is the index the pointer loop stopped at\<close>
  "base_type entries tokens im1 =
     (if tok_spelling (tokens ! im1) = '',''
        then (case entries of
                [] \<Rightarrow> Inl (Undefined ''entries[n - 1] with n = 0'')
              | _ \<Rightarrow> Inr (sm_type (last entries)))
      else concat_name tokens 0 im1)"

definition fill_struct_members :: "StructDeclaration \<Rightarrow> node \<Rightarrow> failure + StructDeclaration" where
  "fill_struct_members decl nd =
     (if kind (cursor nd) = FieldDecl then
        let str = spelling nd; tokens = extent nd in
        (case find_token_index tokens str of
           Inl e \<Rightarrow> Inl e
         | Inr idx \<Rightarrow>
            (case array_suffix tokens idx of
               Inl e \<Rightarrow> Inl e
             | Inr array_size \<Rightarrow>
                (case count_ptrs tokens idx 0 of
                   Inl e \<Rightarrow> Inl e
                 | Inr n_ptrs \<Rightarrow>
                    (case base_type (sd_entries decl) tokens (idx - 1 - n_ptrs) of
                       Inl e \<Rightarrow> Inl e
                     | Inr ty \<Rightarrow>
                        Inr (decl\<lparr>sd_entries := sd_entries decl @
                               [\<lparr>sm_type = ty, sm_name = str, sm_n_ptrs = n_ptrs,
                                 sm_array_size = array_size, sm_cursor = cursor nd\<rparr>]\<rparr>)))))
      else Inr decl)"

fun visit_fill_struct_members ::
    "StructDeclaration \<Rightarrow> node list \<Rightarrow> failure + StructDeclaration" where
  "visit_fill_struct_members decl [] = Inr decl"
| "visit_fill_struct_members decl (n # ns) =
     (case fill_struct_members decl n of
        Inl e \<Rightarrow> Inl e
      | Inr decl' \<Rightarrow> visit_fill_struct_members decl' ns)"

fun find_struct_decl ::
    "StructDeclaration list \<Rightarrow> string \<Rightarrow> CXCursor \<Rightarrow> nat \<Rightarrow> nat option" where
  "find_struct_decl [] str c n = None"
| "find_struct_decl (d # ds) str c n =
     (if sd_name d = str \<and> c \<noteq> sd_cursor d then Some n
      else find_struct_decl ds str c (Suc n))"

definition register_struct ::
    "string \<Rightarrow> node \<Rightarrow> TypedefDeclaration option \<Rightarrow> StructDeclaration list \<Rightarrow>
     failure + (TypedefDeclaration option \<times> StructDeclaration list)" where
  "register_struct str nd decl_ptr structs =
     (case find_struct_decl structs str (cursor nd) 0 of
        Some n \<Rightarrow> Inr (map_option (\<lambda>d. d\<lparr>td_struct_decl := Some n\<rparr>) decl_ptr, structs)
      | None \<Rightarrow>
          let k = length structs;
              decl = \<lparr>sd_entries = [], sd_name = str, sd_cursor = cursor nd\<rparr>
          in (case visit_fill_struct_members decl (children nd) of
                Inl e \<Rightarrow> Inl e
              | Inr decl' \<Rightarrow>
                  Inr (map_option (\<lambda>d. d\<lparr>td_struct_decl := Some k\<rparr>) decl_ptr,
                       structs @ [decl'])))"

subsection \<open>Typedefs\<close>

text \<open>
  \<open>register_typedef\<close> takes the next entry of the table that \<open>realloc\<close> returned and assigns
  its name, its cursor and one of the three alternatives. \<open>realloc\<close> does not initialise
  memory, so the fields that are not assigned keep what the memory held: \<open>slot\<close> is that
  content, and it is an input. \<open>n_tokens - 3\<close> is unsigned.
\<close>

definition register_typedef ::
    "string \<Rightarrow> CXToken list \<Rightarrow> TypedefDeclaration \<Rightarrow> CXCursor \<Rightarrow> TypedefDeclaration \<Rightarrow>
     TypedefDeclaration list \<Rightarrow> failure + TypedefDeclaration list" where
  "register_typedef name' tokens decl c slot typedefs =
     (if td_struct_decl decl \<noteq> None then
        Inr (typedefs @ [slot\<lparr>td_name := name', td_struct_decl := td_struct_decl decl,
                              td_cursor := c\<rparr>])
      else if td_enum_decl decl \<noteq> None then
        Inr (typedefs @ [slot\<lparr>td_name := name', td_enum_decl := td_enum_decl decl,
                              td_cursor := c\<rparr>])
      else
        (case concat_name tokens 1 ((length tokens + 2 ^ 32 - 3) mod 2 ^ 32) of
           Inl e \<Rightarrow> Inl e
         | Inr text \<Rightarrow>
             Inr (typedefs @ [slot\<lparr>td_name := name', td_proxy := Some text, td_cursor := c\<rparr>])))"

section \<open>The traversal\<close>

text \<open>
  The global state of the program: the three tables and what has been written to standard
  output so far. A failure of the traversal carries the text passed to \<open>printf\<close> before it
  (\<open>exit\<close> flushes it to standard output).
\<close>

record world =
  structs :: "StructDeclaration list"
  enums :: "EnumDeclaration list"
  typedefs :: "TypedefDeclaration list"
  stdout :: string

definition zero_typedef :: TypedefDeclaration where
  \<comment> \<open>\<open>memset(&decl, 0, sizeof(decl))\<close>\<close>
  "zero_typedef =
     \<lparr>td_proxy = None, td_name = [], td_struct_decl = None, td_enum_decl = None,
      td_cursor = \<lparr>kind = OtherKind 0, data = 0\<rparr>\<rparr>"

definition token_line :: "CXToken \<Rightarrow> string" where
  \<comment> \<open>\<open>printf("token = '%s' @ %d:%d\n", spelling, line, col)\<close>\<close>
  "token_line t =
     ''token = '' @ [CHR 0x27] @ tok_spelling t @ [CHR 0x27] @ '' @ '' @
     printf_d (sint (tok_line t)) @ '':'' @ printf_d (sint (tok_column t)) @ [nl]"

definition derp_line :: "node \<Rightarrow> CXCursor \<Rightarrow> string" where
  \<comment> \<open>\<open>printf("DERP: %d [%d] %s @ %d:%d in %s\n", ...)\<close>\<close>
  "derp_line nd parent =
     ''DERP: '' @ printf_d (kind_code (kind (cursor nd))) @ '' ['' @
     printf_d (kind_code (kind parent)) @ ''] '' @ spelling nd @ '' @ '' @
     printf_d (sint (loc_line nd)) @ '':'' @ printf_d (sint (loc_column nd)) @
     '' in '' @ loc_file nd @ [nl]"

definition member_line :: "string \<Rightarrow> CXCursor \<Rightarrow> string" where
  \<comment> \<open>\<open>printf("member: %s (parent: %d)\n", str, parent.kind)\<close>\<close>
  "member_line str parent =
     ''member: '' @ str @ '' (parent: '' @ printf_d (kind_code (kind parent)) @ '')'' @ [nl]"

text \<open>
  \<open>callback\<close>. \<open>client_data\<close> is a pointer to the \<open>TypedefDeclaration\<close> under construction,
  or \<open>NULL\<close>; the model passes the pointed-to value and returns it updated (the traversal
  of the children of a typedef starts from \<open>Some\<close> and therefore ends with \<open>Some\<close>, see
  \<open>callback_pointer\<close> below). \<open>mem n\<close> is what the memory of entry \<open>n\<close> of the typedef table
  holds when \<open>realloc\<close> hands it out.

  The macro \<open>dprintf(...)\<close> is \<open>if (DEBUG) printf(...)\<close>, and \<open>DEBUG\<close> is expanded where
  \<open>dprintf\<close> is used: it is \<open>0\<close> everywhere except in the \<open>default\<close> case of the switch,
  which sits between \<open>#define DEBUG 1\<close> and \<open>#define DEBUG 0\<close>. The \<open>printf\<close> of the
  \<open>MemberRef\<close> case is unconditional.
\<close>

fun callback ::
    "(nat \<Rightarrow> TypedefDeclaration) \<Rightarrow> node \<Rightarrow> CXCursor \<Rightarrow> TypedefDeclaration option \<times> world \<Rightarrow>
     (failure \<times> string) + (TypedefDeclaration option \<times> world)"
  and visit_callback ::
    "(nat \<Rightarrow> TypedefDeclaration) \<Rightarrow> node list \<Rightarrow> CXCursor \<Rightarrow> TypedefDeclaration option \<times> world \<Rightarrow>
     (failure \<times> string) + (TypedefDeclaration option \<times> world)" where
  "callback mem (Node c str tokens l co f cs) parent (client_data, w) =
     (if kind c = TypedefDecl then
        (case visit_callback mem cs c (Some zero_typedef, w) of
           Inl e \<Rightarrow> Inl e
         | Inr (None, w') \<Rightarrow> Inr (client_data, w')
         | Inr (Some decl, w') \<Rightarrow>
             (case register_typedef str tokens decl c (mem (length (typedefs w')))
                     (typedefs w') of
                Inl e \<Rightarrow> Inl (e, stdout w')
              | Inr tds \<Rightarrow> Inr (client_data, w'\<lparr>typedefs := tds\<rparr>)))
      else if kind c = StructDecl then
        (case register_struct str (Node c str tokens l co f cs) client_data (structs w) of
           Inl e \<Rightarrow> Inl (e, stdout w)
         | Inr (client_data', structs') \<Rightarrow> Inr (client_data', w\<lparr>structs := structs'\<rparr>))
      else if kind c = EnumDecl then
        (case register_enum str (Node c str tokens l co f cs) client_data (enums w) of
           Inl e \<Rightarrow> Inl (e, stdout w)
         | Inr (client_data', enums') \<Rightarrow> Inr (client_data', w\<lparr>enums := enums'\<rparr>))
      else if kind c = CompoundLiteralExpr \<or> kind c = TypeRef \<or> kind c = InitListExpr
              \<or> kind c = UnexposedExpr then
        (case visit_callback mem cs c (None, w) of
           Inl e \<Rightarrow> Inl e
         | Inr (_, w') \<Rightarrow> Inr (client_data, w'))
      else if kind c = MemberRef then
        (if kind parent = UnexposedExpr
           then Inr (client_data, w\<lparr>stdout := stdout w @ member_line str parent\<rparr>)
         else Inr (client_data, w))
      else if kind c = IntegerLiteral \<or> kind c = DeclRefExpr then
        (if kind parent = UnexposedExpr \<and> tokens = []
           then Inl (Undefined ''tokens[n_tokens - 1] with n_tokens = 0'', stdout w)
         else Inr (client_data, w))
      else
        (case visit_callback mem cs c
                (None, w\<lparr>stdout := stdout w @ derp_line (Node c str tokens l co f cs) parent @
                                     concat (map token_line tokens)\<rparr>) of
           Inl e \<Rightarrow> Inl e
         | Inr (_, w') \<Rightarrow> Inr (client_data, w')))"
| "visit_callback mem [] parent s = Inr s"
| "visit_callback mem (n # ns) parent s =
     (case callback mem n parent s of
        Inl e \<Rightarrow> Inl e
      | Inr s' \<Rightarrow> visit_callback mem ns parent s')"

section \<open>The printer\<close>

text \<open>
  \<open>print_tokens\<close>: \<open>cpos\<close> and \<open>lnum\<close> are the column and line the printer believes it is
  at. For each token the first loop prints a newline for every line up to the token's, the
  second a space for every column up to the token's, then the spelling is printed and its
  length added to \<open>cpos\<close>. The result is the text printed; a failed \<open>assert\<close> carries the text
  printed before it.
\<close>

fun print_loop ::
    "CXToken list \<Rightarrow> c_unsigned \<Rightarrow> c_unsigned \<Rightarrow> string \<Rightarrow> (failure \<times> string) + string" where
  "print_loop [] cpos lnum out = Inr (out @ [nl])"
| "print_loop (t # ts) cpos lnum out =
     (let line = tok_line t - 1; col = tok_column t - 1 in
      if \<not> lnum \<le> line then Inl (Assertion ''line >= lnum'', out)
      else
        let out1 = out @ replicate (unat line - unat lnum) nl;
            cpos1 = (if lnum < line then 0 else cpos);
            out2 = out1 @ replicate (unat col - unat cpos1) CHR '' '';
            cpos2 = (if cpos1 < col then col else cpos1)
        in print_loop ts (cpos2 + of_nat (length (tok_spelling t))) line
             (out2 @ tok_spelling t))"

definition print_tokens :: "CXToken list \<Rightarrow> (failure \<times> string) + string" where
  "print_tokens tokens = print_loop tokens 0 0 []"

section \<open>The program\<close>

text \<open>
  \<open>main\<close>, from the translation unit libclang built for \<open>argv[1]\<close>: the traversal of the
  children of the root, then the printing of the tokens of the root's extent. The result is
  the standard output of a run whose traversal and printing complete, or the failure with
  the text passed to \<open>printf\<close> before it. \<open>cleanup\<close>, which runs after the output has been
  written and prints nothing (all its \<open>dprintf\<close> calls are under \<open>DEBUG 0\<close>), is not part of
  the model; nor is the loop over the tokens in \<open>main\<close>, whose only statement with an effect
  is a \<open>dprintf\<close> under \<open>DEBUG 0\<close>.
\<close>

definition world0 :: world where
  "world0 = \<lparr>structs = [], enums = [], typedefs = [], stdout = []\<rparr>"

definition main :: "(nat \<Rightarrow> TypedefDeclaration) \<Rightarrow> node \<Rightarrow> (failure \<times> string) + string" where
  "main mem tu =
     (case visit_callback mem (children tu) (cursor tu) (None, world0) of
        Inl e \<Rightarrow> Inl e
      | Inr (_, w) \<Rightarrow>
          (case print_tokens (extent tu) of
             Inl (e, text) \<Rightarrow> Inl (e, stdout w @ text)
           | Inr text \<Rightarrow> Inr (stdout w @ text)))"

section \<open>Notions of the specification and example inputs\<close>

text \<open>
  The exact integer result of a binary operator, on mathematical integers: two's-complement
  bit operations, and for \<open>/\<close> and \<open>%\<close> the quotient truncated towards zero and the
  remainder that goes with it.
\<close>

definition exact_result :: "char \<Rightarrow> int \<Rightarrow> int \<Rightarrow> int" where
  "exact_result op x y =
     (if op = CHR ''^'' then x XOR y
      else if op = CHR ''|'' then x OR y
      else if op = CHR ''&'' then x AND y
      else if op = CHR ''+'' then x + y
      else if op = CHR ''-'' then x - y
      else if op = CHR ''*'' then x * y
      else if op = CHR ''/'' then x sdiv y
      else x smod y)"

text \<open>
  Example inputs. The tokens of a cursor's extent are the tokens of the construct followed
  by the one token after it, which is what the program expects of \<open>clang_tokenize\<close> (an
  integer literal has \<open>n_tokens == 2\<close>, \<open>a + b\<close> has \<open>n_tokens == 4\<close>).
\<close>

definition tok :: "string \<Rightarrow> nat \<Rightarrow> nat \<Rightarrow> CXToken" where
  "tok s l c = \<lparr>tok_spelling = s, tok_line = of_nat l, tok_column = of_nat c\<rparr>"

definition literal :: "string \<Rightarrow> node" where
  \<comment> \<open>an integer literal spelled \<open>s\<close>\<close>
  "literal s =
     Node \<lparr>kind = IntegerLiteral, data = 0\<rparr> [] [tok s 1 1, tok '','' 1 2] 1 1 [] []"

definition binary :: "string \<Rightarrow> string \<Rightarrow> string \<Rightarrow> node" where
  \<comment> \<open>the expression \<open>x op y\<close> of two integer literals\<close>
  "binary x op y =
     Node \<lparr>kind = BinaryOperator, data = 0\<rparr> []
       [tok x 1 1, tok op 1 2, tok y 1 3, tok '','' 1 4] 1 1 [] [literal x, literal y]"

definition unary_minus :: "string \<Rightarrow> node" where
  \<comment> \<open>the expression \<open>-s\<close>: a unary operator (cursor kind 112) over an integer literal\<close>
  "unary_minus s =
     Node \<lparr>kind = OtherKind 112, data = 0\<rparr> [] [tok ''-'' 1 1, tok s 1 2, tok '','' 1 3] 1 1 []
       [literal s]"

definition enum_constant :: "string \<Rightarrow> node list \<Rightarrow> node" where
  "enum_constant s init = Node \<lparr>kind = EnumConstantDecl, data = 0\<rparr> s [] 1 1 [] init"

definition struct_node :: "string \<Rightarrow> nat \<Rightarrow> node list \<Rightarrow> node" where
  "struct_node s i fs = Node \<lparr>kind = StructDecl, data = i\<rparr> s [] 1 1 [] fs"

definition enum_node :: "string \<Rightarrow> nat \<Rightarrow> node list \<Rightarrow> node" where
  "enum_node s i ms = Node \<lparr>kind = EnumDecl, data = i\<rparr> s [] 1 1 [] ms"

definition enum_member :: "string \<Rightarrow> c_int \<Rightarrow> EnumMember" where
  "enum_member s v = \<lparr>em_name = s, em_value = v, em_cursor = \<lparr>kind = EnumConstantDecl, data = 0\<rparr>\<rparr>"

definition decl_ref :: "string \<Rightarrow> node" where
  "decl_ref s = Node \<lparr>kind = DeclRefExpr, data = 0\<rparr> s [tok s 1 1, tok '','' 1 2] 1 1 [] []"

definition undefined_constant_unit :: node where
  \<comment> \<open>the translation unit of \<open>enum E { A = B };\<close>\<close>
  "undefined_constant_unit =
     Node \<lparr>kind = OtherKind 300, data = 0\<rparr> ''a.c''
       [tok ''enum'' 1 1, tok ''E'' 1 6, tok ''{'' 1 8, tok ''A'' 1 10, tok ''='' 1 12,
        tok ''B'' 1 14, tok ''}'' 1 16, tok '';'' 1 17] 1 1 ''a.c''
       [enum_node ''E'' 0 [enum_constant ''A'' [decl_ref ''B'']]]"

text \<open>\<open>append_member es k nd v\<close>: the table \<open>es\<close> after the member declared by \<open>nd\<close> has been added to
  \<open>es[k]\<close> with value \<open>v\<close>.\<close>

definition append_member :: "EnumDeclaration list \<Rightarrow> nat \<Rightarrow> node \<Rightarrow> c_int \<Rightarrow> EnumDeclaration list" where
  "append_member es k nd v =
     es[k := (es ! k)\<lparr>ed_entries := ed_entries (es ! k) @
               [\<lparr>em_name = spelling nd, em_value = v, em_cursor = cursor nd\<rparr>]\<rparr>]"

definition struct_S :: "nat \<Rightarrow> StructDeclaration" where
  \<comment> \<open>a registered \<open>struct S\<close> without fields, declared by the node \<open>i\<close>\<close>
  "struct_S i = \<lparr>sd_entries = [], sd_name = ''S'', sd_cursor = \<lparr>kind = StructDecl, data = i\<rparr>\<rparr>"

definition enum_E :: "nat \<Rightarrow> EnumDeclaration" where
  "enum_E i = \<lparr>ed_entries = [], ed_name = ''E'', ed_cursor = \<lparr>kind = EnumDecl, data = i\<rparr>\<rparr>"

definition field_decl :: "string \<Rightarrow> CXToken list \<Rightarrow> node" where
  "field_decl s tokens = Node \<lparr>kind = FieldDecl, data = 0\<rparr> s tokens 1 1 [] []"

definition member :: "string \<Rightarrow> string \<Rightarrow> nat \<Rightarrow> nat \<Rightarrow> CXCursor \<Rightarrow> StructMember" where
  "member ty s n_ptrs array_size c =
     \<lparr>sm_type = ty, sm_name = s, sm_n_ptrs = n_ptrs, sm_array_size = array_size, sm_cursor = c\<rparr>"

text \<open>
  The shape of a field as its declaration writes it: \<open>spaced ty\<close> is the text of the tokens
  \<open>ty\<close> separated by single spaces, and \<open>declared_extent behind\<close> the array extent that the
  tokens after the field's name declare: the number after a \<open>[\<close> that follows the name at
  once, or 0 when another token follows the name.
\<close>

fun spaced :: "string list \<Rightarrow> string" where
  "spaced [] = []"
| "spaced [s] = s"
| "spaced (s # ss) = s @ '' '' @ spaced ss"

definition declared_extent :: "string list \<Rightarrow> nat option" where
  "declared_extent behind =
     (case behind of
        [] \<Rightarrow> None
      | x # r \<Rightarrow>
          if x = ''['' then
            (case r of
               [] \<Rightarrow> None
             | d # _ \<Rightarrow> (case atoi d of Inl e \<Rightarrow> None | Inr v \<Rightarrow> Some (unat v)))
          else Some 0)"

text \<open>
  The number of alternatives of a typedef entry that are set. \<open>stale_slot\<close> is a piece of
  memory that is not all zero: where the field \<open>enum_decl\<close> lies it holds a non-null value.
\<close>

definition alternatives_set :: "TypedefDeclaration \<Rightarrow> nat" where
  "alternatives_set td =
     length (filter (\<lambda>b. b) [td_struct_decl td \<noteq> None, td_enum_decl td \<noteq> None, td_proxy td \<noteq> None])"

definition stale_slot :: TypedefDeclaration where
  "stale_slot =
     \<lparr>td_proxy = None, td_name = [], td_struct_decl = None, td_enum_decl = Some 7,
      td_cursor = \<lparr>kind = OtherKind 0, data = 0\<rparr>\<rparr>"

definition typedef_struct_unit :: node where
  \<comment> \<open>the translation unit of \<open>typedef struct S { int a; } T;\<close>\<close>
  "typedef_struct_unit =
     Node \<lparr>kind = OtherKind 300, data = 0\<rparr> ''a.c''
       [tok ''typedef'' 1 1, tok ''struct'' 1 9, tok ''S'' 1 16, tok ''{'' 1 18, tok ''int'' 1 20,
        tok ''a'' 1 24, tok '';'' 1 25, tok ''}'' 1 27, tok ''T'' 1 29, tok '';'' 1 30]
       1 1 ''a.c''
       [Node \<lparr>kind = TypedefDecl, data = 1\<rparr> ''T''
          [tok ''typedef'' 1 1, tok ''struct'' 1 9, tok ''S'' 1 16, tok ''{'' 1 18, tok ''int'' 1 20,
           tok ''a'' 1 24, tok '';'' 1 25, tok ''}'' 1 27, tok ''T'' 1 29, tok '';'' 1 30]
          1 29 ''a.c''
          [struct_node ''S'' 2 [field_decl ''a'' [tok ''int'' 1 20, tok ''a'' 1 24, tok '';'' 1 25]]]]"

text \<open>
  The debug lines the traversal of a tree writes to standard output: for a cursor whose kind
  has no case of its own in \<open>callback\<close>, the line \<open>DERP: ...\<close> and one line per token of
  its extent, followed by the lines of its children; for a member reference below an
  unexposed expression, the line \<open>member: ...\<close>; nothing for struct and enum declarations,
  integer literals and references to declarations; for the other kinds the lines of the
  children.
\<close>

fun debug_lines :: "node \<Rightarrow> CXCursor \<Rightarrow> string"
  and debug_lines_list :: "node list \<Rightarrow> CXCursor \<Rightarrow> string" where
  "debug_lines (Node c str tokens l co f cs) parent =
     (if kind c = StructDecl \<or> kind c = EnumDecl \<or> kind c = IntegerLiteral \<or> kind c = DeclRefExpr
        then []
      else if kind c = MemberRef
        then (if kind parent = UnexposedExpr then member_line str parent else [])
      else if kind c = TypedefDecl \<or> kind c = CompoundLiteralExpr \<or> kind c = TypeRef
              \<or> kind c = InitListExpr \<or> kind c = UnexposedExpr
        then debug_lines_list cs c
      else derp_line (Node c str tokens l co f cs) parent @ concat (map token_line tokens) @
           debug_lines_list cs c)"
| "debug_lines_list [] parent = []"
| "debug_lines_list (n # ns) parent = debug_lines n parent @ debug_lines_list ns parent"

definition variable_unit :: node where
  \<comment> \<open>the translation unit of \<open>int x;\<close>: one variable declaration (cursor kind 9)\<close>
  "variable_unit =
     Node \<lparr>kind = OtherKind 300, data = 0\<rparr> ''a.c''
       [tok ''int'' 1 1, tok ''x'' 1 5, tok '';'' 1 6] 1 1 ''a.c''
       [Node \<lparr>kind = OtherKind 9, data = 1\<rparr> ''x''
          [tok ''int'' 1 1, tok ''x'' 1 5, tok '';'' 1 6] 1 5 ''a.c'' []]"

text \<open>
  The translation unit of the two lines
  \<^verbatim>\<open>typedef struct { int a; } P;\<close> and
  \<^verbatim>\<open>void f(P x, int y) { x = (P){1}; y = 3; }\<close>:
  a compound literal in the first statement of a block, followed by a second statement.
  Cursor kinds 8, 10 and 202 are the function declaration, the parameter declaration and
  the compound statement.
\<close>

definition line1 :: "CXToken list" where
  "line1 = [tok ''typedef'' 1 1, tok ''struct'' 1 9, tok ''{'' 1 16, tok ''int'' 1 18, tok ''a'' 1 22,
            tok '';'' 1 23, tok ''}'' 1 25, tok ''P'' 1 27, tok '';'' 1 28]"

definition line2 :: "CXToken list" where
  "line2 = [tok ''void'' 2 1, tok ''f'' 2 6, tok ''('' 2 7, tok ''P'' 2 8, tok ''x'' 2 10,
            tok '','' 2 11, tok ''int'' 2 13, tok ''y'' 2 17, tok '')'' 2 18, tok ''{'' 2 20,
            tok ''x'' 2 22, tok ''='' 2 24, tok ''('' 2 26, tok ''P'' 2 27, tok '')'' 2 28,
            tok ''{'' 2 29, tok ''1'' 2 30, tok ''}'' 2 31, tok '';'' 2 32, tok ''y'' 2 34,
            tok ''='' 2 36, tok ''3'' 2 38, tok '';'' 2 39, tok ''}'' 2 41]"

definition at :: "CXCursorKind \<Rightarrow> nat \<Rightarrow> string \<Rightarrow> CXToken list \<Rightarrow> nat \<Rightarrow> node list \<Rightarrow> node" where
  \<comment> \<open>a node of \<open>a.c\<close> on line 2 at the column given\<close>
  "at k i s tokens co cs = Node \<lparr>kind = k, data = i\<rparr> s tokens 2 (of_nat co) ''a.c'' cs"

definition literal_unit :: node where
  "literal_unit =
     Node \<lparr>kind = OtherKind 300, data = 0\<rparr> ''a.c'' (line1 @ line2) 1 1 ''a.c''
       [Node \<lparr>kind = TypedefDecl, data = 1\<rparr> ''P'' line1 1 27 ''a.c''
          [Node \<lparr>kind = StructDecl, data = 2\<rparr> [] (take 7 (tl line1)) 1 9 ''a.c''
             [Node \<lparr>kind = FieldDecl, data = 3\<rparr> ''a'' (take 3 (drop 3 line1)) 1 22 ''a.c'' []]],
        at (OtherKind 8) 4 ''f'' line2 6
          [at (OtherKind 10) 5 ''x'' (take 3 (drop 3 line2)) 10
             [at TypeRef 6 ''P'' (take 2 (drop 3 line2)) 8 []],
           at (OtherKind 10) 7 ''y'' (take 3 (drop 6 line2)) 17 [],
           at (OtherKind 202) 8 [] (drop 9 line2) 20
             [at BinaryOperator 9 [] (take 9 (drop 10 line2)) 24
                [at DeclRefExpr 10 ''x'' (take 2 (drop 10 line2)) 22 [],
                 at CompoundLiteralExpr 11 [] (take 7 (drop 12 line2)) 26
                   [at TypeRef 12 ''P'' (take 2 (drop 13 line2)) 27 [],
                    at InitListExpr 13 [] (take 4 (drop 15 line2)) 29
                      [at IntegerLiteral 14 [] (take 2 (drop 16 line2)) 30 []]]],
              at BinaryOperator 15 [] (take 4 (drop 19 line2)) 36
                [at DeclRefExpr 16 ''y'' (take 2 (drop 19 line2)) 34 [],
                 at IntegerLiteral 17 [] (take 2 (drop 21 line2)) 38 []]]]]"


text \<open>
  Positions in a text, counted from 0: \<open>row_of s\<close> and \<open>col_of s\<close> are the line and the
  column reached after \<open>s\<close> has been printed; \<open>at_pos s r c\<close> the part of \<open>s\<close> that begins at
  line \<open>r\<close>, column \<open>c\<close>, when \<open>s\<close> has such a position. A token is emitted at its recorded
  position in a text when the text reads the token's spelling at the token's line and column
  (which libclang counts from 1). \<open>placed_in_order\<close> is the condition on a token sequence:
  lines do not decrease, and a token on the line of the one before it starts at or after
  the end of that one.
\<close>

definition row_of :: "string \<Rightarrow> nat" where
  "row_of s = length (filter (\<lambda>x. x = nl) s)"

definition col_of :: "string \<Rightarrow> nat" where
  "col_of s = length (takeWhile (\<lambda>x. x \<noteq> nl) (rev s))"

fun at_pos :: "string \<Rightarrow> nat \<Rightarrow> nat \<Rightarrow> string option" where
  "at_pos s 0 0 = Some s"
| "at_pos [] r c = None"
| "at_pos (x # xs) 0 (Suc c) = (if x = nl then None else at_pos xs 0 c)"
| "at_pos (x # xs) (Suc r) c = (if x = nl then at_pos xs r c else at_pos xs (Suc r) c)"

definition emitted_at :: "string \<Rightarrow> CXToken \<Rightarrow> bool" where
  "emitted_at text t =
     (tok_line t \<noteq> 0 \<and> tok_column t \<noteq> 0 \<and>
      (case at_pos text (unat (tok_line t) - 1) (unat (tok_column t) - 1) of
         None \<Rightarrow> False
       | Some rest \<Rightarrow> prefix (tok_spelling t) rest))"

fun placed_in_order :: "CXToken list \<Rightarrow> bool" where
  "placed_in_order (a # b # ts) =
     (tok_line a \<le> tok_line b
      \<and> (tok_line a = tok_line b \<longrightarrow>
           unat (tok_column a) + length (tok_spelling a) \<le> unat (tok_column b))
      \<and> placed_in_order (b # ts))"
| "placed_in_order ts = True"

text \<open>
  The tokens of a file whose first two lines are a block comment and whose third line is
  \<open>x\<close>. libclang returns a comment as one token, spelled with its line break.
\<close>

definition comment_tokens :: "CXToken list" where
  "comment_tokens = [tok (''/* a'' @ [nl] @ ''   b */'') 1 1, tok ''x'' 3 1]"

section \<open>The constant evaluator: binary operators\<close>

lemma sint_of_int_in_range:
  "- (2 ^ 31) \<le> r \<Longrightarrow> r < 2 ^ 31 \<Longrightarrow> sint (word_of_int r :: c_int) = r"
  by (simp add: signed_of_int signed_take_bit_int_eq_self)

lemma sint_arith:
  fixes a b :: c_int
  shows "- (2 ^ 31) \<le> sint a + sint b \<Longrightarrow> sint a + sint b < 2 ^ 31 \<Longrightarrow>
           sint (a + b) = sint a + sint b"
    and "- (2 ^ 31) \<le> sint a - sint b \<Longrightarrow> sint a - sint b < 2 ^ 31 \<Longrightarrow>
           sint (a - b) = sint a - sint b"
    and "- (2 ^ 31) \<le> sint a * sint b \<Longrightarrow> sint a * sint b < 2 ^ 31 \<Longrightarrow>
           sint (a * b) = sint a * sint b"
  by (simp_all add: sint_word_ariths signed_take_bit_int_eq_self)

lemma sint_bitwise:
  fixes a b :: c_int
  shows "sint (a XOR b) = sint a XOR sint b"
    and "sint (a OR b) = sint a OR sint b"
    and "sint (a AND b) = sint a AND sint b"
  by (simp_all add: signed_xor_eq signed_or_eq signed_and_eq)

lemma arithmetic_expression_exact:
  assumes "op \<in> set ''^|&+-*/%''"
    and "op = CHR ''/'' \<or> op = CHR ''%'' \<Longrightarrow>
           b \<noteq> 0 \<and> \<not> (sint a = - (2 ^ 31) \<and> sint b = - 1)"
    and "- (2 ^ 31) \<le> exact_result op (sint a) (sint b)"
    and "exact_result op (sint a) (sint b) < 2 ^ 31"
  shows "\<exists>r. arithmetic_expression a [op] b = Inr r \<and> sint r = exact_result op (sint a) (sint b)"
  using assms
  by (auto simp: arithmetic_expression_def exact_result_def sint_arith sint_bitwise
        c_div_def c_mod_def sint_of_int_in_range)

lemma arithmetic_expression_unknown:
  "op \<notin> set ''^|&+-*/%'' \<Longrightarrow>
   arithmetic_expression a [op] b = Inl (Fatal (''Unknown arithmetic expression '' @ [op] @ [nl]))"
  by (simp add: arithmetic_expression_def)

lemma arithmetic_expression_long:
  "2 \<le> length expr \<Longrightarrow> arithmetic_expression a expr b = Inl (Assertion ''expr[1] == 0'')"
proof -
  assume "2 \<le> length expr"
  then obtain x y zs where "expr = x # y # zs"
    by (cases expr; cases "tl expr") auto
  then show ?thesis by (simp add: arithmetic_expression_def)
qed

lemma arithmetic_expression_zero_divisor:
  "expr = ''/'' \<or> expr = ''%'' \<Longrightarrow>
   arithmetic_expression a expr 0 = Inl (Undefined ''division by zero'')"
  by (auto simp: arithmetic_expression_def c_div_def c_mod_def)

lemma arithmetic_expression_divisor_nonzero:
  "expr = ''/'' \<or> expr = ''%'' \<Longrightarrow> arithmetic_expression a expr b = Inr r \<Longrightarrow> b \<noteq> 0"
  by (auto simp: arithmetic_expression_def c_div_def c_mod_def)

lemma fill_enum_value_binary:
  assumes "kind c = BinaryOperator" and "length tokens = 4"
    and "visit_fill_enum_value es cs [] = Inr [a, b]"
  shows "fill_enum_value es (Node c str tokens l co f cs) ptr =
           (case arithmetic_expression a (tok_spelling (tokens ! 1)) b of
              Inl e \<Rightarrow> Inl e
            | Inr v \<Rightarrow> store ptr v)"
  using assms by simp

lemma fill_enum_value_token_count:
  "kind c = BinaryOperator \<Longrightarrow> length tokens \<noteq> 4 \<Longrightarrow>
   fill_enum_value es (Node c str tokens l co f cs) ptr = Inl (Assertion ''n_tokens == 4'')"
  by simp

lemma visit_two_literals:
  "visit_fill_enum_value es [literal ''8'', literal ''3''] [] = Inr [8, 3]"
  by (simp add: literal_def tok_def atoi_def isspace_def isdigit_def int_result_def store_def)

text \<open>
  C3, as the code has it. A binary initializer whose two operands have been evaluated to
  \<open>a\<close> and \<open>b\<close>, and whose operator token is one of the single characters
  \<open>^ | & + - * / %\<close>, evaluates to the exact integer result of the operator on \<open>a\<close> and \<open>b\<close>
  (division truncating, remainder as in C) whenever that result fits an \<open>int\<close> and, for
  \<open>/\<close> and \<open>%\<close>, the divisor is not zero and the quotient is not \<open>INT_MIN / -1\<close>. Any other
  operator token of one character ends the run with the diagnostic
  \<open>Unknown arithmetic expression\<close>; an operator token of two or more characters, such as
  \<open><<\<close>, fails the assertion \<open>expr[1] == 0\<close> instead and is never evaluated.
\<close>

theorem binary_initializer_value:
  assumes "kind c = BinaryOperator" and "length tokens = 4"
    and "visit_fill_enum_value es cs [] = Inr [a, b]"
    and "tok_spelling (tokens ! 1) = expr"
  shows "(expr = [op] \<and> op \<in> set ''^|&+-*/%''
            \<and> (op = CHR ''/'' \<or> op = CHR ''%'' \<longrightarrow>
                 b \<noteq> 0 \<and> \<not> (sint a = - (2 ^ 31) \<and> sint b = - 1))
            \<and> - (2 ^ 31) \<le> exact_result op (sint a) (sint b)
            \<and> exact_result op (sint a) (sint b) < 2 ^ 31
          \<longrightarrow> (\<exists>r. fill_enum_value es (Node c str tokens l co f cs) [] = Inr [r]
                   \<and> sint r = exact_result op (sint a) (sint b)))
       \<and> (expr = [op] \<and> op \<notin> set ''^|&+-*/%''
          \<longrightarrow> fill_enum_value es (Node c str tokens l co f cs) [] =
                Inl (Fatal (''Unknown arithmetic expression '' @ expr @ [nl])))
       \<and> (2 \<le> length expr
          \<longrightarrow> fill_enum_value es (Node c str tokens l co f cs) [] =
                Inl (Assertion ''expr[1] == 0''))"
proof -
  have step: "fill_enum_value es (Node c str tokens l co f cs) [] =
                (case arithmetic_expression a expr b of Inl e \<Rightarrow> Inl e | Inr v \<Rightarrow> Inr [v])"
    by (simp only: fill_enum_value_binary [OF assms(1-3)] assms(4))
       (simp add: store_def split: sum.splits)
  have exact: "\<exists>r. fill_enum_value es (Node c str tokens l co f cs) [] = Inr [r]
                   \<and> sint r = exact_result op (sint a) (sint b)"
    if h: "expr = [op] \<and> op \<in> set ''^|&+-*/%''
            \<and> (op = CHR ''/'' \<or> op = CHR ''%'' \<longrightarrow>
                 b \<noteq> 0 \<and> \<not> (sint a = - (2 ^ 31) \<and> sint b = - 1))
            \<and> - (2 ^ 31) \<le> exact_result op (sint a) (sint b)
            \<and> exact_result op (sint a) (sint b) < 2 ^ 31"
  proof -
    obtain r where "arithmetic_expression a [op] b = Inr r"
        and "sint r = exact_result op (sint a) (sint b)"
      using h arithmetic_expression_exact [of op b a] by blast
    then show ?thesis unfolding step using h by simp
  qed
  have unknown: "fill_enum_value es (Node c str tokens l co f cs) [] =
                   Inl (Fatal (''Unknown arithmetic expression '' @ expr @ [nl]))"
    if "expr = [op] \<and> op \<notin> set ''^|&+-*/%''"
    unfolding step using that arithmetic_expression_unknown [of op a b] by simp
  have long: "fill_enum_value es (Node c str tokens l co f cs) [] =
                Inl (Assertion ''expr[1] == 0'')"
    if "2 \<le> length expr"
    unfolding step using that by (simp add: arithmetic_expression_long)
  show ?thesis using exact unknown long by blast
qed

theorem binary_initializer_value_witness:
  "(\<exists>r. fill_enum_value [] (binary ''8'' ''/'' ''3'') [] = Inr [r] \<and> sint r = 2)
   \<and> fill_enum_value [] (binary ''8'' ''<'' ''3'') [] =
       Inl (Fatal (''Unknown arithmetic expression <'' @ [nl]))
   \<and> fill_enum_value [] (binary ''8'' ''=='' ''3'') [] = Inl (Assertion ''expr[1] == 0'')"
proof -
  have k: "kind \<lparr>kind = BinaryOperator, data = 0\<rparr> = BinaryOperator" by simp
  have n: "length [tok ''8'' 1 1, tok x 1 2, tok ''3'' 1 3, tok '','' 1 4] = 4" for x
    by simp
  have t: "tok_spelling ([tok ''8'' 1 1, tok x 1 2, tok ''3'' 1 3, tok '','' 1 4] ! 1) = x" for x
    by (simp add: tok_def)
  have e: "exact_result CHR ''/'' (sint (8 :: c_int)) (sint (3 :: c_int)) = 2"
    by (simp add: exact_result_def signed_divide_int_def)
  have p1: "''/'' = [CHR ''/''] \<and> CHR ''/'' \<in> set ''^|&+-*/%''
            \<and> (CHR ''/'' = CHR ''/'' \<or> CHR ''/'' = CHR ''%'' \<longrightarrow>
                 (3 :: c_int) \<noteq> 0 \<and> \<not> (sint (8 :: c_int) = - (2 ^ 31) \<and> sint (3 :: c_int) = - 1))
            \<and> - (2 ^ 31) \<le> exact_result CHR ''/'' (sint (8 :: c_int)) (sint (3 :: c_int))
            \<and> exact_result CHR ''/'' (sint (8 :: c_int)) (sint (3 :: c_int)) < 2 ^ 31"
    unfolding e by simp
  have p2: "''<'' = [CHR ''<''] \<and> CHR ''<'' \<notin> set ''^|&+-*/%''" by simp
  have p3: "2 \<le> length ''==''" by simp
  from binary_initializer_value
         [OF k n visit_two_literals t, of "''/''" "CHR ''/''" "[]" "[]" 1 1 "[]"] p1
  have "\<exists>r. fill_enum_value [] (binary ''8'' ''/'' ''3'') [] = Inr [r]
          \<and> sint r = exact_result CHR ''/'' (sint (8 :: c_int)) (sint (3 :: c_int))"
    unfolding binary_def by blast
  moreover
  from binary_initializer_value
         [OF k n visit_two_literals t, of "''<''" "CHR ''<''" "[]" "[]" 1 1 "[]"] p2
  have "fill_enum_value [] (binary ''8'' ''<'' ''3'') [] =
          Inl (Fatal (''Unknown arithmetic expression '' @ ''<'' @ [nl]))"
    unfolding binary_def by blast
  moreover
  from binary_initializer_value
         [OF k n visit_two_literals t, of "''==''" "CHR ''=''" "[]" "[]" 1 1 "[]"] p3
  have "fill_enum_value [] (binary ''8'' ''=='' ''3'') [] = Inl (Assertion ''expr[1] == 0'')"
    unfolding binary_def by blast
  ultimately show ?thesis unfolding e by simp
qed

text \<open>
  C3 as the specification states it fails for the shift operator: the initializer \<open>1 << 2\<close>
  is not evaluated to 4, and it does not end with the unsupported-expression diagnostic
  either; the assertion on the length of the operator text fails.
\<close>

theorem shift_initializer_counterexample:
  "fill_enum_value [] (binary ''1'' ''<<'' ''2'') [] = Inl (Assertion ''expr[1] == 0'')"
  by (simp add: binary_def literal_def tok_def atoi_def isspace_def isdigit_def int_result_def
        store_def arithmetic_expression_def)

text \<open>
  C10. The operators \<open>/\<close> and \<open>%\<close> are applied to the evaluated operands without a check of
  the right one. When it is zero the evaluation reaches the C division, whose behaviour is
  undefined: the outcome is neither the diagnostic exit nor a failed assertion. Whenever the
  evaluation of such an initializer yields a value, the right operand was not zero.
\<close>

theorem division_unguarded:
  assumes "kind c = BinaryOperator" and "length tokens = 4"
    and "visit_fill_enum_value es cs [] = Inr [a, b]"
    and "tok_spelling (tokens ! 1) = ''/'' \<or> tok_spelling (tokens ! 1) = ''%''"
  shows "(b = 0 \<longrightarrow> fill_enum_value es (Node c str tokens l co f cs) ptr =
                     Inl (Undefined ''division by zero''))
       \<and> (fill_enum_value es (Node c str tokens l co f cs) ptr = Inr ptr' \<longrightarrow> b \<noteq> 0)"
proof -
  have step: "fill_enum_value es (Node c str tokens l co f cs) ptr =
                (case arithmetic_expression a (tok_spelling (tokens ! 1)) b of
                   Inl e \<Rightarrow> Inl e
                 | Inr v \<Rightarrow> store ptr v)"
    by (rule fill_enum_value_binary [OF assms(1-3)])
  have zero: "fill_enum_value es (Node c str tokens l co f cs) ptr =
                Inl (Undefined ''division by zero'')" if "b = 0"
    unfolding step using that arithmetic_expression_zero_divisor [OF assms(4), of a] by simp
  have nonzero: "b \<noteq> 0" if "fill_enum_value es (Node c str tokens l co f cs) ptr = Inr ptr'"
  proof -
    from that obtain v where "arithmetic_expression a (tok_spelling (tokens ! 1)) b = Inr v"
      unfolding step by (auto split: sum.splits)
    then show ?thesis by (rule arithmetic_expression_divisor_nonzero [OF assms(4)])
  qed
  show ?thesis using zero nonzero by blast
qed

lemma visit_literals_zero:
  "visit_fill_enum_value es [literal ''8'', literal ''0''] [] = Inr [8, 0]"
  by (simp add: literal_def tok_def atoi_def isspace_def isdigit_def int_result_def store_def)

theorem division_unguarded_witness:
  "fill_enum_value [] (binary ''8'' ''/'' ''0'') [] = Inl (Undefined ''division by zero'')
   \<and> fill_enum_value [] (binary ''8'' ''%'' ''0'') [] = Inl (Undefined ''division by zero'')"
proof -
  have k: "kind \<lparr>kind = BinaryOperator, data = 0\<rparr> = BinaryOperator" by simp
  have n: "length [tok ''8'' 1 1, tok x 1 2, tok ''0'' 1 3, tok '','' 1 4] = 4" for x
    by simp
  have t1: "tok_spelling ([tok ''8'' 1 1, tok ''/'' 1 2, tok ''0'' 1 3, tok '','' 1 4] ! 1) = ''/''
          \<or> tok_spelling ([tok ''8'' 1 1, tok ''/'' 1 2, tok ''0'' 1 3, tok '','' 1 4] ! 1) = ''%''"
    by (simp add: tok_def)
  have t2: "tok_spelling ([tok ''8'' 1 1, tok ''%'' 1 2, tok ''0'' 1 3, tok '','' 1 4] ! 1) = ''/''
          \<or> tok_spelling ([tok ''8'' 1 1, tok ''%'' 1 2, tok ''0'' 1 3, tok '','' 1 4] ! 1) = ''%''"
    by (simp add: tok_def)
  from division_unguarded [OF k n visit_literals_zero t1, of "[]" "[]" 1 1 "[]" "[]"]
  have "fill_enum_value [] (binary ''8'' ''/'' ''0'') [] = Inl (Undefined ''division by zero'')"
    unfolding binary_def by blast
  moreover
  from division_unguarded [OF k n visit_literals_zero t2, of "[]" "[]" 1 1 "[]" "[]"]
  have "fill_enum_value [] (binary ''8'' ''%'' ''0'') [] = Inl (Undefined ''division by zero'')"
    unfolding binary_def by blast
  ultimately show ?thesis by simp
qed

section \<open>Enum members\<close>

text \<open>
  C2, as the code has it. A member whose initializer the evaluator resolves to the value
  \<open>v\<close> is registered with \<open>v\<close>. A member for which the evaluator stores no value, which is
  the case of a member without an initializer and also of a member whose initializer is of
  a kind the evaluator ignores, is registered with 0 when it is the first member of its enum
  and otherwise with the value of the member before it plus 1 (in \<open>int\<close> arithmetic). So
  \<open>{A, B, C}\<close> resolves to 0, 1, 2 and \<open>{A = 5, B, C}\<close> to 5, 6, 7.
\<close>

theorem enum_member_value:
  assumes "kind (cursor nd) = EnumConstantDecl"
  shows "(visit_fill_enum_value es (children nd) [] = Inr [v] \<longrightarrow>
            fill_enum_members es k nd = Inr (append_member es k nd v))
       \<and> (visit_fill_enum_value es (children nd) [] = Inr [] \<longrightarrow>
            fill_enum_members es k nd =
              Inr (append_member es k nd
                     (if ed_entries (es ! k) = [] then 0
                      else em_value (last (ed_entries (es ! k))) + 1)))
       \<and> (children nd = [] \<longrightarrow> visit_fill_enum_value es (children nd) [] = Inr [])
       \<and> register_enum ''E''
            (enum_node ''E'' 0
               [enum_constant ''A'' [], enum_constant ''B'' [], enum_constant ''C'' []])
            None [] =
          Inr (None, [\<lparr>ed_entries = [enum_member ''A'' 0, enum_member ''B'' 1, enum_member ''C'' 2],
                        ed_name = ''E'', ed_cursor = \<lparr>kind = EnumDecl, data = 0\<rparr>\<rparr>])
       \<and> register_enum ''E''
            (enum_node ''E'' 0
               [enum_constant ''A'' [literal ''5''], enum_constant ''B'' [],
                enum_constant ''C'' []])
            None [] =
          Inr (None, [\<lparr>ed_entries = [enum_member ''A'' 5, enum_member ''B'' 6, enum_member ''C'' 7],
                        ed_name = ''E'', ed_cursor = \<lparr>kind = EnumDecl, data = 0\<rparr>\<rparr>])"
proof -
  have a: "fill_enum_members es k nd = Inr (append_member es k nd v)"
    if "visit_fill_enum_value es (children nd) [] = Inr [v]"
    using assms that by (simp add: fill_enum_members_def append_member_def Let_def)
  have b: "fill_enum_members es k nd =
              Inr (append_member es k nd
                     (if ed_entries (es ! k) = [] then 0
                      else em_value (last (ed_entries (es ! k))) + 1))"
    if "visit_fill_enum_value es (children nd) [] = Inr []"
    using assms that
    by (simp add: fill_enum_members_def append_member_def Let_def last_conv_nth)
  have c: "register_enum ''E''
            (enum_node ''E'' 0
               [enum_constant ''A'' [], enum_constant ''B'' [], enum_constant ''C'' []])
            None [] =
          Inr (None, [\<lparr>ed_entries = [enum_member ''A'' 0, enum_member ''B'' 1, enum_member ''C'' 2],
                        ed_name = ''E'', ed_cursor = \<lparr>kind = EnumDecl, data = 0\<rparr>\<rparr>])"
    by (simp add: register_enum_def enum_node_def enum_constant_def enum_member_def
          fill_enum_members_def Let_def)
  have d: "register_enum ''E''
            (enum_node ''E'' 0
               [enum_constant ''A'' [literal ''5''], enum_constant ''B'' [],
                enum_constant ''C'' []])
            None [] =
          Inr (None, [\<lparr>ed_entries = [enum_member ''A'' 5, enum_member ''B'' 6, enum_member ''C'' 7],
                        ed_name = ''E'', ed_cursor = \<lparr>kind = EnumDecl, data = 0\<rparr>\<rparr>])"
    by (simp add: register_enum_def enum_node_def enum_constant_def enum_member_def
          fill_enum_members_def Let_def literal_def tok_def atoi_def isspace_def isdigit_def
          int_result_def store_def)
  have e: "visit_fill_enum_value es (children nd) [] = Inr []" if "children nd = []"
    using that by simp
  show ?thesis using a b c d e by blast
qed

theorem enum_member_value_witness:
  "fill_enum_members [enum_E 0] 0 (enum_constant ''A'' [literal ''5'']) =
     Inr [(enum_E 0)\<lparr>ed_entries := [enum_member ''A'' 5]\<rparr>]
   \<and> fill_enum_members [(enum_E 0)\<lparr>ed_entries := [enum_member ''A'' 5]\<rparr>] 0
         (enum_constant ''B'' []) =
     Inr [(enum_E 0)\<lparr>ed_entries := [enum_member ''A'' 5, enum_member ''B'' 6]\<rparr>]"
proof -
  have k: "kind (cursor (enum_constant s init)) = EnumConstantDecl" for s init
    by (simp add: enum_constant_def)
  have v: "visit_fill_enum_value [enum_E 0] (children (enum_constant ''A'' [literal ''5''])) [] =
             Inr [5]"
    by (simp add: enum_constant_def literal_def tok_def atoi_def isspace_def isdigit_def
          int_result_def store_def)
  have n: "children (enum_constant ''B'' []) = []"
    by (simp add: enum_constant_def)
  from enum_member_value [OF k, of "[enum_E 0]" "''A''" "[literal ''5'']" 5 0] v
  have "fill_enum_members [enum_E 0] 0 (enum_constant ''A'' [literal ''5'']) =
          Inr (append_member [enum_E 0] 0 (enum_constant ''A'' [literal ''5'']) 5)"
    by blast
  moreover
  from enum_member_value
         [OF k, of "[(enum_E 0)\<lparr>ed_entries := [enum_member ''A'' 5]\<rparr>]" "''B''" "[]" 0 0] n
  have "fill_enum_members [(enum_E 0)\<lparr>ed_entries := [enum_member ''A'' 5]\<rparr>] 0
          (enum_constant ''B'' []) =
        Inr (append_member [(enum_E 0)\<lparr>ed_entries := [enum_member ''A'' 5]\<rparr>] 0
               (enum_constant ''B'' [])
               (if ed_entries ([(enum_E 0)\<lparr>ed_entries := [enum_member ''A'' 5]\<rparr>] ! 0) = [] then 0
                else em_value (last (ed_entries
                       ([(enum_E 0)\<lparr>ed_entries := [enum_member ''A'' 5]\<rparr>] ! 0))) + 1))"
    by blast
  ultimately show ?thesis
    by (simp add: append_member_def enum_constant_def enum_member_def enum_E_def)
qed

text \<open>
  C2 as the specification states it fails for \<open>enum E { A = -1, B };\<close>. The initializer of
  \<open>A\<close> is a unary operator, a kind of node the evaluator passes over without descending:
  no value is stored for it, and \<open>A\<close>, which has an explicit initializer, is numbered as if
  it had none. \<open>A\<close> is registered with 0 and \<open>B\<close> with 1.
\<close>

theorem ignored_initializer_counterexample:
  "visit_fill_enum_value [enum_E 0] [unary_minus ''1''] [] = Inr []
   \<and> register_enum ''E''
        (enum_node ''E'' 0 [enum_constant ''A'' [unary_minus ''1''], enum_constant ''B'' []])
        None [] =
      Inr (None, [\<lparr>ed_entries = [enum_member ''A'' 0, enum_member ''B'' 1],
                    ed_name = ''E'', ed_cursor = \<lparr>kind = EnumDecl, data = 0\<rparr>\<rparr>])"
  by (simp add: register_enum_def enum_node_def enum_constant_def enum_member_def enum_E_def
        unary_minus_def fill_enum_members_def Let_def)

section \<open>Lookup of enum constants\<close>

lemma find_append_case:
  "find P (xs @ ys) = (case find P xs of None \<Rightarrow> find P ys | Some x \<Rightarrow> Some x)"
  by (induction xs) auto

lemma find_enum_member_find:
  "find_enum_member ms str = map_option em_value (find (\<lambda>m. em_name m = str) ms)"
  by (induction ms) auto

lemma find_enum_in_find:
  "find_enum_in es str =
     map_option em_value (find (\<lambda>m. em_name m = str) (concat (map ed_entries es)))"
proof (induction es)
  case Nil
  show ?case by simp
next
  case (Cons d ds)
  show ?case
  proof (cases "find (\<lambda>m. em_name m = str) (ed_entries d)")
    case None
    then show ?thesis
      by (simp add: Cons.IH find_enum_member_find find_append_case)
  next
    case (Some m)
    then show ?thesis
      by (simp add: find_enum_member_find find_append_case)
  qed
qed

text \<open>
  C4. \<open>find_enum_value\<close> returns the value of the first member with the name, in the order
  of registration (enum after enum, member after member); when no member has the name it
  ends the run with the diagnostic \<open>Unknown enum value\<close> and the name, and so does the
  evaluation of a reference to such a name in an initializer. A failure of the
  traversal is the end of the run: standard output holds what the traversal had written and
  nothing of the token stream, which is printed only after the traversal. For
  \<open>enum E { A = B };\<close> the run ends with \<open>Unknown enum value B\<close> and an empty standard
  output.
\<close>

theorem find_enum_value_first_match:
  "find_enum_value es str =
     (case find (\<lambda>m. em_name m = str) (concat (map ed_entries es)) of
        Some m \<Rightarrow> Inr (em_value m)
      | None \<Rightarrow> Inl (Fatal (''Unknown enum value '' @ str @ [nl])))
   \<and> (kind c = DeclRefExpr \<and> length tokens = 2 \<and>
        find (\<lambda>m. em_name m = tok_spelling (tokens ! 0)) (concat (map ed_entries es)) = None \<longrightarrow>
        fill_enum_value es (Node c s tokens l co f cs) ptr =
          Inl (Fatal (''Unknown enum value '' @ tok_spelling (tokens ! 0) @ [nl])))
   \<and> (visit_callback mem (children tu) (cursor tu) (None, world0) = Inl (e, printed) \<longrightarrow>
        main mem tu = Inl (e, printed))
   \<and> main mem undefined_constant_unit = Inl (Fatal (''Unknown enum value B'' @ [nl]), [])"
proof -
  have a: "find_enum_value es str =
     (case find (\<lambda>m. em_name m = str) (concat (map ed_entries es)) of
        Some m \<Rightarrow> Inr (em_value m)
      | None \<Rightarrow> Inl (Fatal (''Unknown enum value '' @ str @ [nl])))" for str
    by (simp add: find_enum_value_def find_enum_in_find split: option.splits)
  have b: "main mem tu = Inl (e, printed)"
    if "visit_callback mem (children tu) (cursor tu) (None, world0) = Inl (e, printed)"
    using that by (simp add: main_def)
  have c: "main mem undefined_constant_unit = Inl (Fatal (''Unknown enum value B'' @ [nl]), [])"
    by (simp add: main_def undefined_constant_unit_def enum_node_def enum_constant_def
          decl_ref_def tok_def world0_def register_enum_def fill_enum_members_def Let_def
          find_enum_value_def)
  have d: "fill_enum_value es (Node c s tokens l co f cs) ptr =
             Inl (Fatal (''Unknown enum value '' @ tok_spelling (tokens ! 0) @ [nl]))"
    if "kind c = DeclRefExpr \<and> length tokens = 2 \<and>
        find (\<lambda>m. em_name m = tok_spelling (tokens ! 0)) (concat (map ed_entries es)) = None"
    using that a [of "tok_spelling (tokens ! 0)"] by simp
  show ?thesis using a [of str] b c d by blast
qed

theorem find_enum_value_first_match_witness:
  "fill_enum_value [] (decl_ref ''B'') [] = Inl (Fatal (''Unknown enum value B'' @ [nl]))
   \<and> main (\<lambda>n. zero_typedef) undefined_constant_unit =
       Inl (Fatal (''Unknown enum value B'' @ [nl]), [])"
proof -
  have v: "visit_callback (\<lambda>n. zero_typedef) (children undefined_constant_unit)
             (cursor undefined_constant_unit) (None, world0) =
          Inl (Fatal (''Unknown enum value B'' @ [nl]), [])"
    by (simp add: undefined_constant_unit_def enum_node_def enum_constant_def
          decl_ref_def tok_def world0_def register_enum_def fill_enum_members_def Let_def
          find_enum_value_def)
  have r: "kind \<lparr>kind = DeclRefExpr, data = 0\<rparr> = DeclRefExpr
           \<and> length [tok ''B'' 1 1, tok '','' 1 2] = 2
           \<and> find (\<lambda>m. em_name m = tok_spelling ([tok ''B'' 1 1, tok '','' 1 2] ! 0))
                 (concat (map ed_entries [])) = None"
    by simp
  note inst = find_enum_value_first_match
         [where es = "[]" and c = "\<lparr>kind = DeclRefExpr, data = 0\<rparr>"
            and tokens = "[tok ''B'' 1 1, tok '','' 1 2]" and s = "''B''" and l = 1 and co = 1
            and f = "[]" and cs = "[]" and ptr = "[]"
            and mem = "\<lambda>n. zero_typedef" and tu = undefined_constant_unit
            and e = "Fatal (''Unknown enum value B'' @ [nl])" and printed = "[]"]
  from inst r have "fill_enum_value [] (decl_ref ''B'') [] =
      Inl (Fatal (''Unknown enum value '' @ tok_spelling ([tok ''B'' 1 1, tok '','' 1 2] ! 0) @ [nl]))"
    unfolding decl_ref_def by blast
  moreover from inst v
  have "main (\<lambda>n. zero_typedef) undefined_constant_unit =
          Inl (Fatal (''Unknown enum value B'' @ [nl]), [])"
    by blast
  ultimately show ?thesis by (simp add: tok_def)
qed

section \<open>Registering a name twice\<close>

lemma find_struct_decl_Some:
  assumes "\<exists>d \<in> set ss. sd_name d = str \<and> sd_cursor d \<noteq> c"
  shows "\<exists>k < length ss. find_struct_decl ss str c n = Some (n + k) \<and> sd_name (ss ! k) = str
            \<and> sd_cursor (ss ! k) \<noteq> c"
  using assms
proof (induction ss arbitrary: n)
  case Nil
  then show ?case by simp
next
  case (Cons d ds)
  show ?case
  proof (cases "sd_name d = str \<and> c \<noteq> sd_cursor d")
    case True
    then have "find_struct_decl (d # ds) str c n = Some (n + 0) \<and> sd_name ((d # ds) ! 0) = str
            \<and> sd_cursor ((d # ds) ! 0) \<noteq> c" by auto
    then show ?thesis by blast
  next
    case False
    with Cons.prems have "\<exists>d \<in> set ds. sd_name d = str \<and> sd_cursor d \<noteq> c" by auto
    from Cons.IH [OF this, of "Suc n"] obtain k where "k < length ds"
      "find_struct_decl ds str c (Suc n) = Some (Suc n + k)"
      "sd_name (ds ! k) = str" "sd_cursor (ds ! k) \<noteq> c" by blast
    with False have "Suc k < length (d # ds) \<and> find_struct_decl (d # ds) str c n = Some (n + Suc k)
        \<and> sd_name ((d # ds) ! Suc k) = str \<and> sd_cursor ((d # ds) ! Suc k) \<noteq> c"
      by auto
    then show ?thesis by blast
  qed
qed

lemma find_enum_decl_Some:
  assumes "\<exists>d \<in> set es. ed_name d = str \<and> ed_cursor d \<noteq> c"
  shows "\<exists>k < length es. find_enum_decl es str c n = Some (n + k) \<and> ed_name (es ! k) = str
            \<and> ed_cursor (es ! k) \<noteq> c"
  using assms
proof (induction es arbitrary: n)
  case Nil
  then show ?case by simp
next
  case (Cons d ds)
  show ?case
  proof (cases "ed_name d = str \<and> c \<noteq> ed_cursor d")
    case True
    then have "find_enum_decl (d # ds) str c n = Some (n + 0) \<and> ed_name ((d # ds) ! 0) = str
            \<and> ed_cursor ((d # ds) ! 0) \<noteq> c" by auto
    then show ?thesis by blast
  next
    case False
    with Cons.prems have "\<exists>d \<in> set ds. ed_name d = str \<and> ed_cursor d \<noteq> c" by auto
    from Cons.IH [OF this, of "Suc n"] obtain k where "k < length ds"
      "find_enum_decl ds str c (Suc n) = Some (Suc n + k)"
      "ed_name (ds ! k) = str" "ed_cursor (ds ! k) \<noteq> c" by blast
    with False have "Suc k < length (d # ds) \<and> find_enum_decl (d # ds) str c n = Some (n + Suc k)
        \<and> ed_name ((d # ds) ! Suc k) = str \<and> ed_cursor ((d # ds) ! Suc k) \<noteq> c"
      by auto
    then show ?thesis by blast
  qed
qed

text \<open>
  C5. When the struct table holds an entry with the name being registered and a cursor
  different from the one being registered, \<open>register_struct\<close> returns the table as it was
  and links the typedef under construction (when there is one) to such an entry; the same
  holds of \<open>register_enum\<close> and the enum table.
\<close>

theorem register_same_name_other_node:
  "((\<exists>d \<in> set ss. sd_name d = str \<and> sd_cursor d \<noteq> cursor nd) \<longrightarrow>
      (\<exists>k < length ss. sd_name (ss ! k) = str \<and> sd_cursor (ss ! k) \<noteq> cursor nd \<and>
         register_struct str nd decl_ptr ss =
           Inr (map_option (\<lambda>d. d\<lparr>td_struct_decl := Some k\<rparr>) decl_ptr, ss)))
   \<and> ((\<exists>d \<in> set es. ed_name d = str \<and> ed_cursor d \<noteq> cursor nd) \<longrightarrow>
      (\<exists>k < length es. ed_name (es ! k) = str \<and> ed_cursor (es ! k) \<noteq> cursor nd \<and>
         register_enum str nd decl_ptr es =
           Inr (map_option (\<lambda>d. d\<lparr>td_enum_decl := Some k\<rparr>) decl_ptr, es)))"
proof (intro conjI impI)
  assume "\<exists>d \<in> set ss. sd_name d = str \<and> sd_cursor d \<noteq> cursor nd"
  from find_struct_decl_Some [OF this, of 0]
  show "\<exists>k < length ss. sd_name (ss ! k) = str \<and> sd_cursor (ss ! k) \<noteq> cursor nd \<and>
         register_struct str nd decl_ptr ss =
           Inr (map_option (\<lambda>d. d\<lparr>td_struct_decl := Some k\<rparr>) decl_ptr, ss)"
    by (auto simp: register_struct_def)
next
  assume "\<exists>d \<in> set es. ed_name d = str \<and> ed_cursor d \<noteq> cursor nd"
  from find_enum_decl_Some [OF this, of 0]
  show "\<exists>k < length es. ed_name (es ! k) = str \<and> ed_cursor (es ! k) \<noteq> cursor nd \<and>
         register_enum str nd decl_ptr es =
           Inr (map_option (\<lambda>d. d\<lparr>td_enum_decl := Some k\<rparr>) decl_ptr, es)"
    by (auto simp: register_enum_def)
qed


theorem register_same_name_other_node_witness:
  "register_struct ''S'' (struct_node ''S'' 2 []) (Some zero_typedef) [struct_S 1] =
     Inr (Some (zero_typedef\<lparr>td_struct_decl := Some 0\<rparr>), [struct_S 1])
   \<and> register_enum ''E'' (enum_node ''E'' 2 []) (Some zero_typedef) [enum_E 1] =
     Inr (Some (zero_typedef\<lparr>td_enum_decl := Some 0\<rparr>), [enum_E 1])"
proof -
  have s: "\<exists>d \<in> set [struct_S 1]. sd_name d = ''S'' \<and> sd_cursor d \<noteq> cursor (struct_node ''S'' 2 [])"
    by (simp add: struct_S_def struct_node_def)
  have e: "\<exists>d \<in> set [enum_E 1]. ed_name d = ''E'' \<and> ed_cursor d \<noteq> cursor (enum_node ''E'' 2 [])"
    by (simp add: enum_E_def enum_node_def)
  from register_same_name_other_node
         [where ss = "[struct_S 1]" and str = "''S''" and nd = "struct_node ''S'' 2 []"
            and decl_ptr = "Some zero_typedef"] s
  have "register_struct ''S'' (struct_node ''S'' 2 []) (Some zero_typedef) [struct_S 1] =
          Inr (Some (zero_typedef\<lparr>td_struct_decl := Some 0\<rparr>), [struct_S 1])"
    by auto
  moreover
  from register_same_name_other_node
         [where es = "[enum_E 1]" and str = "''E''" and nd = "enum_node ''E'' 2 []"
            and decl_ptr = "Some zero_typedef"] e
  have "register_enum ''E'' (enum_node ''E'' 2 []) (Some zero_typedef) [enum_E 1] =
          Inr (Some (zero_typedef\<lparr>td_enum_decl := Some 0\<rparr>), [enum_E 1])"
    by auto
  ultimately show ?thesis by simp
qed

section \<open>The shape of struct fields\<close>

lemma find_token_from_first:
  "map tok_spelling tokens = pre @ s # post \<Longrightarrow> s \<notin> set pre \<Longrightarrow>
   find_token_from tokens s n = Some (n + length pre)"
proof (induction pre arbitrary: tokens n)
  case Nil
  then obtain t ts where "tokens = t # ts" "tok_spelling t = s" by (auto simp: map_eq_Cons_conv)
  then show ?case by simp
next
  case (Cons x pre)
  from Cons.prems obtain t ts where
    t: "tokens = t # ts" "tok_spelling t = x" "map tok_spelling ts = pre @ s # post"
    by (auto simp: map_eq_Cons_conv)
  from Cons.prems(2) have "s \<noteq> x" "s \<notin> set pre" by auto
  with Cons.IH [OF t(3), of "Suc n"] t show ?case by simp
qed

lemma join_spellings_spaced: "join_spellings ts = spaced (map tok_spelling ts)"
  by (induction ts rule: join_spellings.induct) simp_all

lemma spelling_nth:
  "map tok_spelling tokens = sp \<Longrightarrow> i < length sp \<Longrightarrow> tok_spelling (tokens ! i) = sp ! i"
  by (metis length_map nth_map)

lemma count_ptrs_stars:
  assumes "map tok_spelling tokens = ty @ replicate k ''*'' @ s # behind"
    and "ty \<noteq> []" and "last ty \<noteq> ''*''" and "j \<le> k"
  shows "count_ptrs tokens (length ty + k) j = Inr k"
  using assms(4)
proof (induction "k - j" arbitrary: j)
  case 0
  then have j: "j = k" by simp
  have len: "length ty - 1 < length (ty @ replicate k ''*'' @ s # behind)"
    using assms(2) by (cases ty) simp_all
  have "tok_spelling (tokens ! (length ty - 1)) = (ty @ replicate k ''*'' @ s # behind) ! (length ty - 1)"
    by (rule spelling_nth [OF assms(1) len])
  also have "\<dots> = last ty"
    using assms(2) by (simp add: nth_append last_conv_nth)
  finally have stop: "tok_spelling (tokens ! (length ty - 1)) \<noteq> ''*''"
    using assms(3) by simp
  have n: "length tokens = length ty + k + Suc (length behind)"
    using arg_cong [OF assms(1), of length] by simp
  have pos: "0 < length ty" using assms(2) by simp
  show ?case
    by (subst count_ptrs.simps) (use stop n pos j in \<open>simp\<close>)
next
  case (Suc d)
  then have lt: "j < k" and d: "d = k - Suc j" by simp_all
  have n: "length tokens = length ty + k + Suc (length behind)"
    using arg_cong [OF assms(1), of length] by simp
  have pos: "0 < length ty" using assms(2) by simp
  have i: "length ty + k - 1 - j < length (ty @ replicate k ''*'' @ s # behind)"
    using pos by simp
  have "tok_spelling (tokens ! (length ty + k - 1 - j)) =
          (ty @ replicate k ''*'' @ s # behind) ! (length ty + k - 1 - j)"
    by (rule spelling_nth [OF assms(1) i])
  also have "\<dots> = ''*''"
  proof -
    have e: "length ty + k - 1 - j = length ty + (k - 1 - j)" and b: "k - 1 - j < k"
      using lt by simp_all
    show ?thesis
      unfolding e nth_append_length_plus using b by (simp add: nth_append)
  qed
  finally have star: "tok_spelling (tokens ! (length ty + k - 1 - j)) = ''*''" .
  from Suc.hyps(1) [OF d] lt have "count_ptrs tokens (length ty + k) (Suc j) = Inr k" by simp
  then show ?case
    by (subst count_ptrs.simps) (use star n pos lt in \<open>simp\<close>)
qed

lemma array_suffix_declared:
  assumes "map tok_spelling tokens = pre @ s # behind"
    and "declared_extent behind = Some n"
  shows "array_suffix tokens (length pre) = Inr n"
proof -
  from assms(2) obtain x r where behind: "behind = x # r"
    by (cases behind) (simp_all add: declared_extent_def)
  have n: "length tokens = length pre + Suc (Suc (length r))"
    using arg_cong [OF assms(1), of length] behind by simp
  have x: "tok_spelling (tokens ! (length pre + 1)) = x"
    using spelling_nth [OF assms(1), of "length pre + 1"] behind by (simp add: nth_append)
  show ?thesis
  proof (cases "x = ''[''")
    case False
    with assms(2) behind have "n = 0" by (simp add: declared_extent_def)
    with False x n show ?thesis by (simp add: array_suffix_def)
  next
    case True
    with assms(2) behind obtain d r' v where r: "r = d # r'" and v: "atoi d = Inr v" "n = unat v"
      by (cases r; cases "atoi (hd r)") (simp_all add: declared_extent_def)
    have d: "tok_spelling (tokens ! (length pre + 2)) = d"
      using spelling_nth [OF assms(1), of "length pre + 2"] behind r by (simp add: nth_append)
    from True x d v n r show ?thesis by (simp add: array_suffix_def)
  qed
qed

lemma base_type_prefix:
  assumes "map tok_spelling tokens = ty @ rest" and "ty \<noteq> []"
  shows "base_type entries tokens (length ty - 1) =
           (if last ty = '','' then
              (case entries of [] \<Rightarrow> Inl (Undefined ''entries[n - 1] with n = 0'')
               | _ \<Rightarrow> Inr (sm_type (last entries)))
            else Inr (spaced ty))"
proof -
  have pos: "0 < length ty" using assms(2) by simp
  have n: "length tokens = length ty + length rest"
    using arg_cong [OF assms(1), of length] by simp
  have "length ty - 1 < length (ty @ rest)"
    using pos by (simp add: less_imp_diff_less trans_less_add1)
  then have "tok_spelling (tokens ! (length ty - 1)) = (ty @ rest) ! (length ty - 1)"
    by (rule spelling_nth [OF assms(1)])
  then have l: "tok_spelling (tokens ! (length ty - 1)) = last ty"
    using pos assms(2) by (simp add: nth_append last_conv_nth)
  have "map tok_spelling (take (length ty) tokens) = ty"
    using assms(1) by (simp add: take_map [symmetric])
  then have j: "join_spellings (take (length ty) tokens) = spaced ty"
    by (simp add: join_spellings_spaced)
  have "\<not> length tokens \<le> length ty - 1" and "Suc (length ty - 1) = length ty"
    using pos n by arith+
  then have "concat_name tokens 0 (length ty - 1) = Inr (spaced ty)"
    using j by (simp add: concat_name_def)
  with l show ?thesis by (simp add: base_type_def)
qed

lemma base_type_inherits:
  assumes "map tok_spelling tokens = ty @ rest" and "ty \<noteq> []" and "last ty = '',''"
    and "entries \<noteq> []"
  shows "base_type entries tokens (length ty - 1) = Inr (sm_type (last entries))"
  using base_type_prefix [OF assms(1,2), of entries] assms(3,4)
  by (cases entries) simp_all

lemma field_shape:
  assumes "kind (cursor nd) = FieldDecl"
    and "map tok_spelling (extent nd) = ty @ replicate k ''*'' @ [spelling nd] @ behind"
    and "spelling nd \<notin> set ty" and "spelling nd \<noteq> ''*''"
    and "ty \<noteq> []" and "last ty \<noteq> ''*''"
    and "declared_extent behind = Some n"
  shows "fill_struct_members decl nd =
           (case base_type (sd_entries decl) (extent nd) (length ty - 1) of
              Inl e \<Rightarrow> Inl e
            | Inr t \<Rightarrow> Inr (decl\<lparr>sd_entries := sd_entries decl @
                                [member t (spelling nd) k n (cursor nd)]\<rparr>))"
proof -
  have sp: "map tok_spelling (extent nd) = (ty @ replicate k ''*'') @ spelling nd # behind"
    using assms(2) by simp
  have "spelling nd \<notin> set (ty @ replicate k ''*'')"
    using assms(3,4) by auto
  from find_token_from_first [OF sp this, of 0]
  have idx: "find_token_index (extent nd) (spelling nd) = Inr (length ty + k)"
    by (simp add: find_token_index_def)
  have arr: "array_suffix (extent nd) (length ty + k) = Inr n"
    using array_suffix_declared [OF sp assms(7)] by simp
  have ptrs: "count_ptrs (extent nd) (length ty + k) 0 = Inr k"
    by (rule count_ptrs_stars [where s = "spelling nd" and behind = behind])
       (use assms in \<open>simp_all\<close>)
  show ?thesis
    using assms(1) idx arr ptrs
    by (simp add: fill_struct_members_def member_def Let_def split: sum.splits)
qed


lemma atoi_4: "atoi ''4'' = Inr 4"
  by (simp add: atoi_def isspace_def isdigit_def int_result_def)

text \<open>
  C7. A field whose tokens are a base type \<open>ty\<close> (one or more tokens, the last of them
  neither \<open>*\<close> nor a comma), then \<open>k\<close> pointer markers \<open>*\<close>, then the name of the field and
  what follows it, is registered with the tokens of \<open>ty\<close> joined by single spaces as its base
  type, with pointer depth \<open>k\<close> and with the array extent declared after the name. When the
  token before the pointer markers is a comma, the field is registered with the base type
  of the member registered before it, whatever the tokens before the comma are: it inherits
  the type. So a field \<open>p\<close> whose tokens begin \<open>int * p [ 4 ]\<close> has base type \<open>int\<close>,
  pointer depth 1 and array extent 4, and the two fields of \<open>int a, b;\<close> (the extent of the
  second begins at \<open>int\<close> as well) both have base type \<open>int\<close>.
\<close>

theorem struct_field_shape:
  "(kind (cursor nd) = FieldDecl
      \<and> map tok_spelling (extent nd) = ty @ replicate k ''*'' @ [spelling nd] @ behind
      \<and> spelling nd \<notin> set ty \<and> spelling nd \<noteq> ''*'' \<and> ty \<noteq> [] \<and> last ty \<noteq> ''*''
      \<and> declared_extent behind = Some n \<and> last ty \<noteq> '',''
    \<longrightarrow> fill_struct_members decl nd =
          Inr (decl\<lparr>sd_entries := sd_entries decl @
                 [member (spaced ty) (spelling nd) k n (cursor nd)]\<rparr>))
   \<and> (kind (cursor nd) = FieldDecl
      \<and> map tok_spelling (extent nd) = ty @ replicate k ''*'' @ [spelling nd] @ behind
      \<and> spelling nd \<notin> set ty \<and> spelling nd \<noteq> ''*'' \<and> ty \<noteq> []
      \<and> declared_extent behind = Some n \<and> last ty = '','' \<and> sd_entries decl \<noteq> []
    \<longrightarrow> fill_struct_members decl nd =
          Inr (decl\<lparr>sd_entries := sd_entries decl @
                 [member (sm_type (last (sd_entries decl))) (spelling nd) k n (cursor nd)]\<rparr>))
   \<and> (kind (cursor p) = FieldDecl \<and> spelling p = ''p''
      \<and> map tok_spelling (extent p) = [''int'', ''*'', ''p'', ''['', ''4'', '']''] @ rest_p
    \<longrightarrow> fill_struct_members decl p =
          Inr (decl\<lparr>sd_entries := sd_entries decl @ [member ''int'' ''p'' 1 4 (cursor p)]\<rparr>))
   \<and> (kind (cursor a) = FieldDecl \<and> spelling a = ''a''
      \<and> map tok_spelling (extent a) = [''int'', ''a'', '',''] @ rest_a
      \<and> kind (cursor b) = FieldDecl \<and> spelling b = ''b''
      \<and> map tok_spelling (extent b) = [''int'', ''a'', '','', ''b'', '';''] @ rest_b
    \<longrightarrow> visit_fill_struct_members decl [a, b] =
          Inr (decl\<lparr>sd_entries := sd_entries decl @
                 [member ''int'' ''a'' 0 0 (cursor a), member ''int'' ''b'' 0 0 (cursor b)]\<rparr>))"
proof (intro conjI impI)
  assume h: "kind (cursor nd) = FieldDecl
      \<and> map tok_spelling (extent nd) = ty @ replicate k ''*'' @ [spelling nd] @ behind
      \<and> spelling nd \<notin> set ty \<and> spelling nd \<noteq> ''*'' \<and> ty \<noteq> [] \<and> last ty \<noteq> ''*''
      \<and> declared_extent behind = Some n \<and> last ty \<noteq> '',''"
  then have sp: "map tok_spelling (extent nd) = ty @ (replicate k ''*'' @ [spelling nd] @ behind)"
    by simp
  from h have "base_type (sd_entries decl) (extent nd) (length ty - 1) = Inr (spaced ty)"
    using base_type_prefix [OF sp] by simp
  with h show "fill_struct_members decl nd =
          Inr (decl\<lparr>sd_entries := sd_entries decl @
                 [member (spaced ty) (spelling nd) k n (cursor nd)]\<rparr>)"
    using field_shape [of nd ty k behind n decl] by simp
next
  assume h: "kind (cursor nd) = FieldDecl
      \<and> map tok_spelling (extent nd) = ty @ replicate k ''*'' @ [spelling nd] @ behind
      \<and> spelling nd \<notin> set ty \<and> spelling nd \<noteq> ''*'' \<and> ty \<noteq> []
      \<and> declared_extent behind = Some n \<and> last ty = '','' \<and> sd_entries decl \<noteq> []"
  then have sp: "map tok_spelling (extent nd) = ty @ (replicate k ''*'' @ [spelling nd] @ behind)"
    by simp
  from h have "base_type (sd_entries decl) (extent nd) (length ty - 1) =
                 Inr (sm_type (last (sd_entries decl)))"
    using base_type_inherits [OF sp] by simp
  moreover from h have "last ty \<noteq> ''*''" by simp
  ultimately show "fill_struct_members decl nd =
          Inr (decl\<lparr>sd_entries := sd_entries decl @
                 [member (sm_type (last (sd_entries decl))) (spelling nd) k n (cursor nd)]\<rparr>)"
    using h field_shape [of nd ty k behind n decl] by simp
next
  assume h: "kind (cursor p) = FieldDecl \<and> spelling p = ''p''
      \<and> map tok_spelling (extent p) = [''int'', ''*'', ''p'', ''['', ''4'', '']''] @ rest_p"
  have e: "declared_extent ([''['', ''4'', '']''] @ rest_p) = Some 4"
    by (simp add: declared_extent_def atoi_4)
  from h have sp: "map tok_spelling (extent p) =
                     [''int''] @ replicate 1 ''*'' @ [spelling p] @ ([''['', ''4'', '']''] @ rest_p)"
    by simp
  have "base_type (sd_entries decl) (extent p) (length [''int''] - 1) = Inr (spaced [''int''])"
    using base_type_prefix [of "extent p" "[''int'']"] sp by simp
  with h sp e show "fill_struct_members decl p =
          Inr (decl\<lparr>sd_entries := sd_entries decl @ [member ''int'' ''p'' 1 4 (cursor p)]\<rparr>)"
    using field_shape [of p "[''int'']" 1 "[''['', ''4'', '']''] @ rest_p" 4 decl] by simp
next
  assume h: "kind (cursor a) = FieldDecl \<and> spelling a = ''a''
      \<and> map tok_spelling (extent a) = [''int'', ''a'', '',''] @ rest_a
      \<and> kind (cursor b) = FieldDecl \<and> spelling b = ''b''
      \<and> map tok_spelling (extent b) = [''int'', ''a'', '','', ''b'', '';''] @ rest_b"
  let ?d = "decl\<lparr>sd_entries := sd_entries decl @ [member ''int'' ''a'' 0 0 (cursor a)]\<rparr>"
  have ea: "declared_extent (['',''] @ rest_a) = Some 0" and eb: "declared_extent ['';''] = Some 0"
    and eb': "declared_extent (['';''] @ rest_b) = Some 0"
    by (simp_all add: declared_extent_def)
  from h have spa: "map tok_spelling (extent a) =
                      [''int''] @ replicate 0 ''*'' @ [spelling a] @ (['',''] @ rest_a)"
    by simp
  have "base_type (sd_entries decl) (extent a) (length [''int''] - 1) = Inr (spaced [''int''])"
    using base_type_prefix [of "extent a" "[''int'']"] spa by simp
  with h spa ea have 1: "fill_struct_members decl a = Inr ?d"
    using field_shape [of a "[''int'']" 0 "['',''] @ rest_a" 0 decl] by simp
  from h have spb: "map tok_spelling (extent b) =
                      [''int'', ''a'', '',''] @ replicate 0 ''*'' @ [spelling b] @ (['';''] @ rest_b)"
    by simp
  have "base_type (sd_entries ?d) (extent b) (length [''int'', ''a'', '',''] - 1) =
          Inr (sm_type (last (sd_entries ?d)))"
    by (rule base_type_inherits [OF spb]) simp_all
  with h spb eb' have 2: "fill_struct_members ?d b =
             Inr (?d\<lparr>sd_entries := sd_entries ?d @
                    [member (sm_type (last (sd_entries ?d))) ''b'' 0 0 (cursor b)]\<rparr>)"
    using field_shape [of b "[''int'', ''a'', '','']" 0 "['';''] @ rest_b" 0 ?d] by simp
  show "visit_fill_struct_members decl [a, b] =
          Inr (decl\<lparr>sd_entries := sd_entries decl @
                 [member ''int'' ''a'' 0 0 (cursor a), member ''int'' ''b'' 0 0 (cursor b)]\<rparr>)"
    by (simp add: 1 2) (simp add: member_def)
qed


theorem struct_field_shape_witness:
  "register_struct ''S''
     (struct_node ''S'' 0
        [field_decl ''a'' [tok ''unsigned'' 2 3, tok ''long'' 2 12, tok ''*'' 2 17, tok ''a'' 2 18,
                           tok '','' 2 19],
         field_decl ''b'' [tok ''unsigned'' 2 3, tok ''long'' 2 12, tok ''*'' 2 17, tok ''a'' 2 18,
                           tok '','' 2 19, tok ''*'' 2 21, tok ''b'' 2 22, tok '';'' 2 23]])
     None [] =
   Inr (None, [\<lparr>sd_entries = [member ''unsigned long'' ''a'' 1 0 \<lparr>kind = FieldDecl, data = 0\<rparr>,
                                member ''unsigned long'' ''b'' 1 0 \<lparr>kind = FieldDecl, data = 0\<rparr>],
                 sd_name = ''S'', sd_cursor = \<lparr>kind = StructDecl, data = 0\<rparr>\<rparr>])
   \<and> register_struct ''S''
     (struct_node ''S'' 0
        [field_decl ''p'' [tok ''int'' 2 3, tok ''*'' 2 7, tok ''p'' 2 8, tok ''['' 2 9,
                           tok ''4'' 2 10, tok '']'' 2 11, tok '';'' 2 12]]) None [] =
   Inr (None, [\<lparr>sd_entries = [member ''int'' ''p'' 1 4 \<lparr>kind = FieldDecl, data = 0\<rparr>],
                 sd_name = ''S'', sd_cursor = \<lparr>kind = StructDecl, data = 0\<rparr>\<rparr>])
   \<and> register_struct ''S''
     (struct_node ''S'' 0
        [field_decl ''a'' [tok ''int'' 2 3, tok ''a'' 2 7, tok '','' 2 8],
         field_decl ''b'' [tok ''int'' 2 3, tok ''a'' 2 7, tok '','' 2 8, tok ''b'' 2 10,
                           tok '';'' 2 11]]) None [] =
   Inr (None, [\<lparr>sd_entries = [member ''int'' ''a'' 0 0 \<lparr>kind = FieldDecl, data = 0\<rparr>,
                                member ''int'' ''b'' 0 0 \<lparr>kind = FieldDecl, data = 0\<rparr>],
                 sd_name = ''S'', sd_cursor = \<lparr>kind = StructDecl, data = 0\<rparr>\<rparr>])"
proof -
  let ?ua = "field_decl ''a'' [tok ''unsigned'' 2 3, tok ''long'' 2 12, tok ''*'' 2 17,
                               tok ''a'' 2 18, tok '','' 2 19]"
  let ?ub = "field_decl ''b'' [tok ''unsigned'' 2 3, tok ''long'' 2 12, tok ''*'' 2 17,
                               tok ''a'' 2 18, tok '','' 2 19, tok ''*'' 2 21, tok ''b'' 2 22,
                               tok '';'' 2 23]"
  let ?p = "field_decl ''p'' [tok ''int'' 2 3, tok ''*'' 2 7, tok ''p'' 2 8, tok ''['' 2 9,
                           tok ''4'' 2 10, tok '']'' 2 11, tok '';'' 2 12]"
  let ?a = "field_decl ''a'' [tok ''int'' 2 3, tok ''a'' 2 7, tok '','' 2 8]"
  let ?b = "field_decl ''b'' [tok ''int'' 2 3, tok ''a'' 2 7, tok '','' 2 8, tok ''b'' 2 10,
                           tok '';'' 2 11]"
  let ?d = "\<lparr>sd_entries = [], sd_name = ''S'', sd_cursor = \<lparr>kind = StructDecl, data = 0\<rparr>\<rparr>"
  let ?d1 = "?d\<lparr>sd_entries := sd_entries ?d @
                 [member (spaced [''unsigned'', ''long'']) (spelling ?ua) 1 0 (cursor ?ua)]\<rparr>"
  have e: "declared_extent ['',''] = Some 0" "declared_extent ['';''] = Some 0"
    by (simp_all add: declared_extent_def)
  have h1: "kind (cursor ?ua) = FieldDecl
      \<and> map tok_spelling (extent ?ua) =
          [''unsigned'', ''long''] @ replicate 1 ''*'' @ [spelling ?ua] @ ['','']
      \<and> spelling ?ua \<notin> set [''unsigned'', ''long''] \<and> spelling ?ua \<noteq> ''*''
      \<and> [''unsigned'', ''long''] \<noteq> [] \<and> last [''unsigned'', ''long''] \<noteq> ''*''
      \<and> declared_extent ['',''] = Some 0 \<and> last [''unsigned'', ''long''] \<noteq> '',''"
    by (simp add: field_decl_def tok_def e)
  have h2: "kind (cursor ?ub) = FieldDecl
      \<and> map tok_spelling (extent ?ub) =
          [''unsigned'', ''long'', ''*'', ''a'', '',''] @ replicate 1 ''*'' @ [spelling ?ub] @ ['';'']
      \<and> spelling ?ub \<notin> set [''unsigned'', ''long'', ''*'', ''a'', '',''] \<and> spelling ?ub \<noteq> ''*''
      \<and> [''unsigned'', ''long'', ''*'', ''a'', '',''] \<noteq> []
      \<and> declared_extent ['';''] = Some 0 \<and> last [''unsigned'', ''long'', ''*'', ''a'', '',''] = '',''
      \<and> sd_entries ?d1 \<noteq> []"
    by (simp add: field_decl_def tok_def e)
  have h3: "kind (cursor ?p) = FieldDecl \<and> spelling ?p = ''p''
      \<and> map tok_spelling (extent ?p) = [''int'', ''*'', ''p'', ''['', ''4'', '']''] @ ['';'']"
    by (simp add: field_decl_def tok_def)
  have h4: "kind (cursor ?a) = FieldDecl \<and> spelling ?a = ''a''
      \<and> map tok_spelling (extent ?a) = [''int'', ''a'', '',''] @ []
      \<and> kind (cursor ?b) = FieldDecl \<and> spelling ?b = ''b''
      \<and> map tok_spelling (extent ?b) = [''int'', ''a'', '','', ''b'', '';''] @ []"
    by (simp add: field_decl_def tok_def)
  note first = struct_field_shape
    [where nd = ?ua and ty = "[''unsigned'', ''long'']" and k = 1 and behind = "['','']" and n = 0
       and decl = ?d and p = ?p and rest_p = "['';'']" and a = ?a and rest_a = "[]" and b = ?b
       and rest_b = "[]"]
  note second = struct_field_shape
    [where nd = ?ub and ty = "[''unsigned'', ''long'', ''*'', ''a'', '','']" and k = 1
       and behind = "['';'']" and n = 0 and decl = ?d1]
  from first h1 have 1: "fill_struct_members ?d ?ua = Inr ?d1" by blast
  from second h2 have 2: "fill_struct_members ?d1 ?ub =
      Inr (?d1\<lparr>sd_entries := sd_entries ?d1 @
             [member (sm_type (last (sd_entries ?d1))) (spelling ?ub) 1 0 (cursor ?ub)]\<rparr>)"
    by blast
  from first h3 have 3: "fill_struct_members ?d ?p =
      Inr (?d\<lparr>sd_entries := sd_entries ?d @ [member ''int'' ''p'' 1 4 (cursor ?p)]\<rparr>)"
    by blast
  from first h4 have 4: "visit_fill_struct_members ?d [?a, ?b] =
      Inr (?d\<lparr>sd_entries := sd_entries ?d @
             [member ''int'' ''a'' 0 0 (cursor ?a), member ''int'' ''b'' 0 0 (cursor ?b)]\<rparr>)"
    by blast
  have 5: "visit_fill_struct_members ?d [?ua, ?ub] =
      Inr (?d1\<lparr>sd_entries := sd_entries ?d1 @
             [member (sm_type (last (sd_entries ?d1))) (spelling ?ub) 1 0 (cursor ?ub)]\<rparr>)"
    by (simp only: visit_fill_struct_members.simps 1 2 sum.case)
  have a: "register_struct ''S'' (struct_node ''S'' 0 [?ua, ?ub]) None [] =
     Inr (None, [\<lparr>sd_entries = [member ''unsigned long'' ''a'' 1 0 \<lparr>kind = FieldDecl, data = 0\<rparr>,
                                member ''unsigned long'' ''b'' 1 0 \<lparr>kind = FieldDecl, data = 0\<rparr>],
                 sd_name = ''S'', sd_cursor = \<lparr>kind = StructDecl, data = 0\<rparr>\<rparr>])"
    using 5 by (simp add: register_struct_def struct_node_def Let_def)
               (simp add: field_decl_def member_def)
  have b: "register_struct ''S'' (struct_node ''S'' 0 [?p]) None [] =
     Inr (None, [\<lparr>sd_entries = [member ''int'' ''p'' 1 4 \<lparr>kind = FieldDecl, data = 0\<rparr>],
                 sd_name = ''S'', sd_cursor = \<lparr>kind = StructDecl, data = 0\<rparr>\<rparr>])"
    using 3 by (simp add: register_struct_def struct_node_def Let_def) (simp add: field_decl_def)
  have c: "register_struct ''S'' (struct_node ''S'' 0 [?a, ?b]) None [] =
     Inr (None, [\<lparr>sd_entries = [member ''int'' ''a'' 0 0 \<lparr>kind = FieldDecl, data = 0\<rparr>,
                                member ''int'' ''b'' 0 0 \<lparr>kind = FieldDecl, data = 0\<rparr>],
                 sd_name = ''S'', sd_cursor = \<lparr>kind = StructDecl, data = 0\<rparr>\<rparr>])"
    using 4 by (simp add: register_struct_def struct_node_def Let_def) (simp add: field_decl_def)
  from a b c show ?thesis by (intro conjI)
qed

section \<open>The traversal keeps the pointer it was given\<close>

text \<open>
  \<open>client_data\<close> is \<open>NULL\<close> after a call of \<open>callback\<close> exactly when it was \<open>NULL\<close> before:
  the code only ever writes through the pointer.
\<close>

lemma register_struct_pointer:
  "register_struct str nd cd ss = Inr (cd', ss') \<Longrightarrow> (cd' = None \<longleftrightarrow> cd = None)"
  by (auto simp: register_struct_def Let_def split: option.splits sum.splits)

lemma register_enum_pointer:
  "register_enum str nd cd es = Inr (cd', es') \<Longrightarrow> (cd' = None \<longleftrightarrow> cd = None)"
  by (auto simp: register_enum_def Let_def split: option.splits sum.splits)

lemma callback_pointer:
  "(callback mem n parent s = Inr s' \<longrightarrow> (fst s' = None \<longleftrightarrow> fst s = None))"
  "(visit_callback mem ns parent s = Inr s' \<longrightarrow> (fst s' = None \<longleftrightarrow> fst s = None))"
proof (induction mem n parent s and mem ns parent s arbitrary: s' and s'
       rule: callback_visit_callback.induct)
  case (1 mem c str tokens l co f cs parent client_data w)
  let ?n = "Node c str tokens l co f cs"
  show ?case
  proof
    assume run: "callback mem ?n parent (client_data, w) = Inr s'"
    consider (reg_struct) "kind c = StructDecl"
      | (reg_enum) "kind c \<noteq> StructDecl" "kind c = EnumDecl"
      | (other) "kind c \<noteq> StructDecl" "kind c \<noteq> EnumDecl"
      by blast
    then show "fst s' = None \<longleftrightarrow> fst (client_data, w) = None"
    proof cases
      case reg_struct
      with run obtain cd' ss' where
        "register_struct str ?n client_data (structs w) = Inr (cd', ss')" "fst s' = cd'"
        by (auto split: sum.splits)
      then show ?thesis using register_struct_pointer by fastforce
    next
      case reg_enum
      with run obtain cd' es' where
        "register_enum str ?n client_data (enums w) = Inr (cd', es')" "fst s' = cd'"
        by (auto split: sum.splits)
      then show ?thesis using register_enum_pointer by fastforce
    next
      case other
      with run have "fst s' = client_data"
        by (auto split: if_splits sum.splits option.splits prod.splits)
      then show ?thesis by simp
    qed
  qed
next
  case (2 mem parent s)
  show ?case by simp
next
  case (3 mem n ns parent s)
  show ?case
  proof
    assume "visit_callback mem (n # ns) parent s = Inr s'"
    then obtain s1 where a: "callback mem n parent s = Inr s1"
      and b: "visit_callback mem ns parent s1 = Inr s'"
      by (auto split: sum.splits)
    from "3.IH"(1) a have "fst s1 = None \<longleftrightarrow> fst s = None" by blast
    moreover from "3.IH"(2) [OF a] b have "fst s' = None \<longleftrightarrow> fst s1 = None" by blast
    ultimately show "fst s' = None \<longleftrightarrow> fst s = None" by simp
  qed
qed

section \<open>Standard output\<close>

lemma callback_stdout:
  "(callback mem n parent s = Inr s' \<longrightarrow> stdout (snd s') = stdout (snd s) @ debug_lines n parent)"
  "(visit_callback mem ns parent s = Inr s' \<longrightarrow>
      stdout (snd s') = stdout (snd s) @ debug_lines_list ns parent)"
proof (induction mem n parent s and mem ns parent s arbitrary: s' and s'
       rule: callback_visit_callback.induct)
  case (1 mem c str tokens l co f cs parent client_data w)
  let ?n = "Node c str tokens l co f cs"
  show ?case
  proof
    assume run: "callback mem ?n parent (client_data, w) = Inr s'"
    consider (tdef) "kind c = TypedefDecl"
      | (sdecl) "kind c = StructDecl" | (edecl) "kind c = EnumDecl"
      | (descend) "kind c = CompoundLiteralExpr \<or> kind c = TypeRef \<or> kind c = InitListExpr
                    \<or> kind c = UnexposedExpr"
      | (member) "kind c = MemberRef"
      | (leaf) "kind c = IntegerLiteral \<or> kind c = DeclRefExpr"
      | (other) "kind c \<noteq> TypedefDecl" "kind c \<noteq> StructDecl" "kind c \<noteq> EnumDecl"
          "kind c \<noteq> CompoundLiteralExpr" "kind c \<noteq> TypeRef" "kind c \<noteq> InitListExpr"
          "kind c \<noteq> UnexposedExpr" "kind c \<noteq> MemberRef" "kind c \<noteq> IntegerLiteral"
          "kind c \<noteq> DeclRefExpr"
      by blast
    then show "stdout (snd s') = stdout (snd (client_data, w)) @ debug_lines ?n parent"
    proof cases
      case tdef
      from run tdef obtain d w' where
        v: "visit_callback mem cs c (Some zero_typedef, w) = Inr (d, w')"
        and "stdout (snd s') = stdout w'"
        by (auto split: sum.splits option.splits)
      moreover from "1.IH"(1) [OF tdef] v
      have "stdout w' = stdout w @ debug_lines_list cs c" by auto
      ultimately show ?thesis using tdef by simp
    next
      case sdecl
      with run show ?thesis by (auto split: sum.splits)
    next
      case edecl
      with run show ?thesis by (auto split: sum.splits)
    next
      case descend
      with run obtain d w' where
        v: "visit_callback mem cs c (None, w) = Inr (d, w')"
        and "stdout (snd s') = stdout w'"
        by (auto split: sum.splits)
      moreover from "1.IH"(2) descend v
      have "stdout w' = stdout w @ debug_lines_list cs c" by auto
      ultimately show ?thesis using descend by auto
    next
      case member
      with run show ?thesis by (auto split: if_splits)
    next
      case leaf
      with run show ?thesis by (auto split: if_splits)
    next
      case other
      let ?w = "w\<lparr>stdout := stdout w @ derp_line ?n parent @ concat (map token_line tokens)\<rparr>"
      from run other obtain d w' where
        v: "visit_callback mem cs c (None, ?w) = Inr (d, w')"
        and "stdout (snd s') = stdout w'"
        by (auto split: sum.splits)
      moreover from "1.IH"(3) other v
      have "stdout w' = stdout ?w @ debug_lines_list cs c" by auto
      ultimately show ?thesis using other by simp
    qed
  qed
next
  case (2 mem parent s)
  show ?case by simp
next
  case (3 mem n ns parent s)
  show ?case
  proof
    assume "visit_callback mem (n # ns) parent s = Inr s'"
    then obtain s1 where a: "callback mem n parent s = Inr s1"
      and b: "visit_callback mem ns parent s1 = Inr s'"
      by (auto split: sum.splits)
    from "3.IH"(1) a have "stdout (snd s1) = stdout (snd s) @ debug_lines n parent" by blast
    moreover from "3.IH"(2) [OF a] b
    have "stdout (snd s') = stdout (snd s1) @ debug_lines_list ns parent" by blast
    ultimately show "stdout (snd s') = stdout (snd s) @ debug_lines_list (n # ns) parent"
      by simp
  qed
qed


lemma print_loop_ends_with_newline:
  "print_loop ts cpos lnum out = Inr text \<Longrightarrow> text \<noteq> [] \<and> last text = nl"
proof (induction ts arbitrary: cpos lnum out)
  case Nil
  then show ?case by auto
next
  case (Cons t ts)
  from Cons.prems obtain cpos' lnum' out' where "print_loop ts cpos' lnum' out' = Inr text"
    by (auto simp: Let_def split: if_splits)
  then show ?case by (rule Cons.IH)
qed

lemma visit_callback_stdout:
  "visit_callback mem ns parent s = Inr s' \<Longrightarrow>
   stdout (snd s') = stdout (snd s) @ debug_lines_list ns parent"
  using callback_stdout(2) by blast

text \<open>
  C9, as the code has it. The standard output of a run that returns normally is the debug
  lines of the traversal (\<open>debug_lines_list\<close>: the \<open>DERP\<close> and \<open>token\<close> lines of every
  visited cursor whose kind has no case of its own, and the \<open>member\<close> lines) followed by
  the one rendering of the token stream, which ends with a newline. Nothing else is written.
\<close>

theorem stdout_of_run:
  assumes "main mem tu = Inr text"
  shows "\<exists>body. print_tokens (extent tu) = Inr body \<and> body \<noteq> [] \<and> last body = nl
           \<and> text = debug_lines_list (children tu) (cursor tu) @ body"
proof -
  from assms obtain s body where
    v: "visit_callback mem (children tu) (cursor tu) (None, world0) = Inr s"
    and p: "print_tokens (extent tu) = Inr body"
    and t: "text = stdout (snd s) @ body"
    by (auto simp: main_def split: sum.splits prod.splits)
  from visit_callback_stdout [OF v]
  have "stdout (snd s) = debug_lines_list (children tu) (cursor tu)"
    by (simp add: world0_def)
  moreover from p have "body \<noteq> [] \<and> last body = nl"
    unfolding print_tokens_def by (rule print_loop_ends_with_newline)
  ultimately show ?thesis using p t by simp
qed

lemma print_variable_unit: "print_tokens (extent variable_unit) = Inr (''int x;'' @ [nl])"
  by (simp add: variable_unit_def print_tokens_def tok_def Let_def)

lemma visit_variable_unit:
  "visit_callback mem (children variable_unit) (cursor variable_unit) (None, world0) =
     Inr (None, world0\<lparr>stdout :=
          ''DERP: 9 [300] x @ 1:5 in a.c'' @ [nl] @
          ''token = 'int' @ 1:1'' @ [nl] @
          ''token = 'x' @ 1:5'' @ [nl] @
          ''token = ';' @ 1:6'' @ [nl]\<rparr>)"
  by (simp add: variable_unit_def world0_def derp_line_def token_line_def tok_def printf_d_def
        decimal.simps)

lemma main_variable_unit:
  "main mem variable_unit =
     Inr (''DERP: 9 [300] x @ 1:5 in a.c'' @ [nl] @
          ''token = 'int' @ 1:1'' @ [nl] @
          ''token = 'x' @ 1:5'' @ [nl] @
          ''token = ';' @ 1:6'' @ [nl] @
          ''int x;'' @ [nl])"
  by (simp add: main_def print_variable_unit visit_variable_unit)

theorem stdout_of_run_witness:
  "print_tokens (extent variable_unit) = Inr (''int x;'' @ [nl])
   \<and> main (\<lambda>n. zero_typedef) variable_unit =
       Inr (debug_lines_list (children variable_unit) (cursor variable_unit) @ ''int x;'' @ [nl])"
proof -
  from stdout_of_run [OF main_variable_unit] print_variable_unit
  have "''DERP: 9 [300] x @ 1:5 in a.c'' @ [nl] @
          ''token = 'int' @ 1:1'' @ [nl] @
          ''token = 'x' @ 1:5'' @ [nl] @
          ''token = ';' @ 1:6'' @ [nl] @
          ''int x;'' @ [nl] =
        debug_lines_list (children variable_unit) (cursor variable_unit) @ ''int x;'' @ [nl]"
    by auto
  with main_variable_unit [of "\<lambda>n. zero_typedef"] print_variable_unit show ?thesis
    by simp
qed

text \<open>
  C9 as the specification states it fails on \<open>int x;\<close>: the variable declaration falls
  into the \<open>default\<close> case of \<open>callback\<close>, and four debug lines precede the token stream on
  standard output.
\<close>

theorem stdout_only_tokens_counterexample:
  "print_tokens (extent variable_unit) = Inr (''int x;'' @ [nl])
   \<and> main (\<lambda>n. zero_typedef) variable_unit =
       Inr (''DERP: 9 [300] x @ 1:5 in a.c'' @ [nl] @
            ''token = 'int' @ 1:1'' @ [nl] @
            ''token = 'x' @ 1:5'' @ [nl] @
            ''token = ';' @ 1:6'' @ [nl] @
            ''int x;'' @ [nl])"
  by (simp add: main_def print_variable_unit visit_variable_unit)

section \<open>Typedef entries\<close>

text \<open>
  C6 does not hold of the code. For \<open>typedef struct S { int a; } T;\<close>, registered in a
  table entry whose memory is not all zero, the entry ends with two alternatives set: the
  struct reference that \<open>register_typedef\<close> assigned, and the enum reference that the
  memory held and that nothing cleared.
\<close>

theorem typedef_fields_uninitialised:
  "visit_callback (\<lambda>n. stale_slot) (children typedef_struct_unit) (cursor typedef_struct_unit)
     (None, world0) =
   Inr (None,
        \<lparr>structs = [\<lparr>sd_entries = [member ''int'' ''a'' 0 0 \<lparr>kind = FieldDecl, data = 0\<rparr>],
                      sd_name = ''S'', sd_cursor = \<lparr>kind = StructDecl, data = 2\<rparr>\<rparr>],
         enums = [],
         typedefs = [\<lparr>td_proxy = None, td_name = ''T'', td_struct_decl = Some 0,
                       td_enum_decl = Some 7, td_cursor = \<lparr>kind = TypedefDecl, data = 1\<rparr>\<rparr>],
         stdout = []\<rparr>)
   \<and> alternatives_set \<lparr>td_proxy = None, td_name = ''T'', td_struct_decl = Some 0,
                        td_enum_decl = Some 7, td_cursor = \<lparr>kind = TypedefDecl, data = 1\<rparr>\<rparr> = 2"
  by (simp add: typedef_struct_unit_def struct_node_def field_decl_def tok_def world0_def
        zero_typedef_def stale_slot_def register_struct_def register_typedef_def
        fill_struct_members_def find_token_index_def array_suffix_def
        count_ptrs.simps [of _ "Suc 0"] base_type_def concat_name_def member_def
        alternatives_set_def Let_def)

text \<open>In memory that is all zero the entry has exactly one alternative set.\<close>

lemma register_typedef_zeroed:
  assumes "register_typedef s tokens decl c zero_typedef tds = Inr tds'"
  shows "tds' = tds @ [last tds'] \<and> alternatives_set (last tds') = 1"
  using assms
  by (auto simp: register_typedef_def zero_typedef_def alternatives_set_def
        split: if_splits sum.splits)



section \<open>Compound literals\<close>

lemma print_literal_unit:
  "print_tokens (extent literal_unit) =
     Inr (''typedef struct { int a; } P;'' @ [nl] @
          ''void f(P x, int y) { x = (P){1}; y = 3; }'' @ [nl])"
  by code_simp

lemma visit_literal_unit:
  "case visit_callback mem (children literal_unit) (cursor literal_unit) (None, world0) of
     Inl e \<Rightarrow> False | Inr s \<Rightarrow> True"
  by code_simp

text \<open>
  C1 does not hold of the code. The block of \<open>f\<close> has the statement \<open>y = 3;\<close> after the
  statement with the compound literal; the token stream is printed as it was read, with the
  literal in place, no temporary and no new scope around \<open>y = 3;\<close>. (The debug lines of the
  traversal precede it.)
\<close>

theorem hoisting_not_performed:
  "print_tokens (extent literal_unit) =
     Inr (''typedef struct { int a; } P;'' @ [nl] @
          ''void f(P x, int y) { x = (P){1}; y = 3; }'' @ [nl])
   \<and> main mem literal_unit =
     Inr (debug_lines_list (children literal_unit) (cursor literal_unit) @
          ''typedef struct { int a; } P;'' @ [nl] @
          ''void f(P x, int y) { x = (P){1}; y = 3; }'' @ [nl])"
proof -
  obtain cd w where
    v: "visit_callback mem (children literal_unit) (cursor literal_unit) (None, world0) =
          Inr (cd, w)"
    using visit_literal_unit [of mem]
    by (cases "visit_callback mem (children literal_unit) (cursor literal_unit) (None, world0)")
       auto
  from visit_callback_stdout [OF v]
  have "stdout w = debug_lines_list (children literal_unit) (cursor literal_unit)"
    by (simp add: world0_def)
  with v print_literal_unit show ?thesis
    by (simp add: main_def)
qed

section \<open>Where the printer puts a token\<close>

lemma row_of_append: "row_of (a @ b) = row_of a + row_of b"
  by (simp add: row_of_def)

lemma row_of_newlines: "row_of (replicate n nl) = n"
  by (simp add: row_of_def)

lemma row_of_plain: "nl \<notin> set s \<Longrightarrow> row_of s = 0"
  by (induction s) (auto simp: row_of_def)

lemma col_of_plain: "nl \<notin> set s \<Longrightarrow> col_of (a @ s) = col_of a + length s"
proof -
  assume "nl \<notin> set s"
  then have "takeWhile (\<lambda>x. x \<noteq> nl) (rev s @ rev a) = rev s @ takeWhile (\<lambda>x. x \<noteq> nl) (rev a)"
    by (intro takeWhile_append2) auto
  then show ?thesis by (simp add: col_of_def)
qed

lemma col_of_newlines: "0 < n \<Longrightarrow> col_of (a @ replicate n nl) = 0"
  by (cases n) (simp_all add: col_of_def replicate_app_Cons_same)

lemma col_of_Cons_newline: "col_of (nl # p) = col_of p"
  by (simp add: col_of_def takeWhile_tail)

lemma col_of_Cons_later: "nl \<in> set p \<Longrightarrow> col_of (x # p) = col_of p"
  by (simp add: col_of_def)

lemma col_of_first_line: "nl \<notin> set p \<Longrightarrow> col_of p = length p"
  using col_of_plain [of p "[]"] by (simp add: col_of_def)

lemma row_of_pos: "nl \<in> set p \<Longrightarrow> \<exists>r. row_of p = Suc r"
  by (induction p) (auto simp: row_of_def)

lemma at_pos_append: "at_pos (pre @ rest) (row_of pre) (col_of pre) = Some rest"
proof (induction pre)
  case Nil
  show ?case by (simp add: row_of_def col_of_def)
next
  case (Cons x p)
  show ?case
  proof (cases "x = nl")
    case True
    have "row_of (x # p) = Suc (row_of p)" using True by (simp add: row_of_def)
    with True Cons.IH show ?thesis by (simp add: col_of_Cons_newline)
  next
    case False
    then have r: "row_of (x # p) = row_of p" by (simp add: row_of_def)
    show ?thesis
    proof (cases "nl \<in> set p")
      case True
      then obtain r' where "row_of p = Suc r'" using row_of_pos by blast
      with True False Cons.IH r show ?thesis by (simp add: col_of_Cons_later)
    next
      case n: False
      with False have "nl \<notin> set (x # p)" by simp
      then have "col_of (x # p) = Suc (length p)" using col_of_first_line by fastforce
      moreover from n have "row_of p = 0" "col_of p = length p"
        by (simp_all add: row_of_plain col_of_first_line)
      ultimately show ?thesis using False Cons.IH r by simp
    qed
  qed
qed

lemma placed_in_order_tail: "placed_in_order (t # ts) \<Longrightarrow> placed_in_order ts"
  by (cases ts) auto

text \<open>
  The invariant of the loop of \<open>print_tokens\<close>: \<open>lnum\<close> is the line the output has reached,
  and when the next token is on that line, \<open>cpos\<close> is the column the output has reached and
  does not exceed the token's column.
\<close>

lemma print_loop_layout:
  assumes "placed_in_order ts"
    and "\<forall>t \<in> set ts. tok_line t \<noteq> 0 \<and> tok_column t \<noteq> 0 \<and> nl \<notin> set (tok_spelling t)"
    and "row_of out = unat lnum"
    and "\<And>t ts'. ts = t # ts' \<Longrightarrow>
           unat lnum \<le> unat (tok_line t) - 1 \<and>
           (unat lnum = unat (tok_line t) - 1 \<longrightarrow>
              unat cpos = col_of out \<and> col_of out \<le> unat (tok_column t) - 1)"
  shows "\<exists>text. print_loop ts cpos lnum out = Inr text \<and> prefix out text
           \<and> (\<forall>t \<in> set ts. emitted_at text t)"
  using assms
proof (induction ts arbitrary: cpos lnum out)
  case Nil
  show ?case by simp
next
  case (Cons t ts)
  define line where "line = tok_line t - 1"
  define col where "col = tok_column t - 1"
  define out1 where "out1 = out @ replicate (unat line - unat lnum) nl"
  define cpos1 where "cpos1 = (if lnum < line then 0 else cpos)"
  define out2 where "out2 = out1 @ replicate (unat col - unat cpos1) CHR '' ''"
  define out3 where "out3 = out2 @ tok_spelling t"
  define cpos3 where "cpos3 = col + of_nat (length (tok_spelling t))"
  from Cons.prems(2) have t: "tok_line t \<noteq> 0" "tok_column t \<noteq> 0" "nl \<notin> set (tok_spelling t)"
    by simp_all
  have ul: "unat line = unat (tok_line t) - 1" and uc: "unat col = unat (tok_column t) - 1"
    using t by (simp_all add: line_def col_def unat_minus_one)
  from Cons.prems(4) [OF refl] have
    le: "unat lnum \<le> unat line" and
    same: "unat lnum = unat line \<Longrightarrow> unat cpos = col_of out \<and> col_of out \<le> unat col"
    by (simp_all add: ul uc)
  have wle: "lnum \<le> line" using le by (simp add: word_le_nat_alt)
  have r1: "row_of out1 = unat line"
    using le Cons.prems(3) by (simp add: out1_def row_of_append row_of_newlines)
  have c1: "unat cpos1 = col_of out1 \<and> col_of out1 \<le> unat col"
  proof (cases "lnum < line")
    case True
    then have "0 < unat line - unat lnum" by (simp add: word_less_nat_alt)
    then have "col_of out1 = 0" unfolding out1_def by (rule col_of_newlines)
    with True show ?thesis by (simp add: cpos1_def)
  next
    case False
    with le have "unat lnum = unat line" by (simp add: word_less_nat_alt)
    with same False show ?thesis by (simp add: cpos1_def out1_def)
  qed
  have r2: "row_of out2 = unat line"
    using r1 by (simp add: out2_def row_of_append row_of_plain)
  have c2: "col_of out2 = unat col"
    using c1 by (simp add: out2_def col_of_plain)
  have cpos2: "(if cpos1 < col then col else cpos1) = col"
    using c1 by (auto simp: word_less_nat_alt word_unat_eq_iff)
  have r3: "row_of out3 = unat line"
    using r2 t(3) by (simp add: out3_def row_of_append row_of_plain)
  have c3: "col_of out3 = unat col + length (tok_spelling t)"
    using c2 t(3) by (simp add: out3_def col_of_plain)
  have step: "print_loop (t # ts) cpos lnum out = print_loop ts cpos3 line out3"
    using wle cpos2
    unfolding out3_def out2_def out1_def cpos3_def cpos1_def line_def col_def
    by (simp add: Let_def)
  have next_ok: "unat line \<le> unat (tok_line t') - 1 \<and>
           (unat line = unat (tok_line t') - 1 \<longrightarrow>
              unat cpos3 = col_of out3 \<and> col_of out3 \<le> unat (tok_column t') - 1)"
    if ts: "ts = t' # ts'" for t' ts'
  proof -
    from Cons.prems(1) ts have
      o: "tok_line t \<le> tok_line t'" and
      s: "tok_line t = tok_line t' \<Longrightarrow>
            unat (tok_column t) + length (tok_spelling t) \<le> unat (tok_column t')"
      by simp_all
    from Cons.prems(2) ts have t': "tok_line t' \<noteq> 0" "tok_column t' \<noteq> 0" by simp_all
    have pos: "0 < unat (tok_line t)" "0 < unat (tok_line t')" "0 < unat (tok_column t)"
      using t t' by (simp_all add: unat_gt_0)
    from o have a: "unat line \<le> unat (tok_line t') - 1"
      by (simp add: ul word_le_nat_alt)
    have b: "unat cpos3 = col_of out3 \<and> col_of out3 \<le> unat (tok_column t') - 1"
      if "unat line = unat (tok_line t') - 1"
    proof -
      from that pos have "unat (tok_line t) = unat (tok_line t')" by (simp add: ul)
      then have "tok_line t = tok_line t'" by (simp add: word_unat_eq_iff)
      from s [OF this] pos have fit: "unat col + length (tok_spelling t) \<le> unat (tok_column t') - 1"
        by (simp add: uc)
      have "unat (tok_column t') < 2 ^ 32" using unsigned_less [of "tok_column t'"] by simp
      with fit have small: "unat col + length (tok_spelling t) < 2 ^ 32" by simp
      then have "length (tok_spelling t) < 2 ^ 32" by simp
      then have len: "unat (of_nat (length (tok_spelling t)) :: c_unsigned) = length (tok_spelling t)"
        by (simp add: unat_of_nat)
      with small have "unat cpos3 = unat col + length (tok_spelling t)"
        unfolding cpos3_def using unat_add_lem [of col "of_nat (length (tok_spelling t))"]
        by simp
      with fit c3 show ?thesis by simp
    qed
    from a b show ?thesis by blast
  qed
  from Cons.prems(2) have rest: "\<forall>t \<in> set ts. tok_line t \<noteq> 0 \<and> tok_column t \<noteq> 0 \<and> nl \<notin> set (tok_spelling t)"
    by simp
  have "\<exists>printed. print_loop ts cpos3 line out3 = Inr printed \<and> prefix out3 printed
           \<and> (\<forall>t \<in> set ts. emitted_at printed t)"
  proof (rule Cons.IH [OF placed_in_order_tail [OF Cons.prems(1)] rest r3])
    fix t' ts'
    assume "ts = t' # ts'"
    then show "unat line \<le> unat (tok_line t') - 1 \<and>
           (unat line = unat (tok_line t') - 1 \<longrightarrow>
              unat cpos3 = col_of out3 \<and> col_of out3 \<le> unat (tok_column t') - 1)"
      by (rule next_ok)
  qed
  then obtain printed where
    run: "print_loop ts cpos3 line out3 = Inr printed" and
    pre: "prefix out3 printed" and
    others: "\<forall>t \<in> set ts. emitted_at printed t"
    by blast
  from pre obtain tail where shape: "printed = out2 @ tok_spelling t @ tail"
    by (auto simp: prefix_def out3_def)
  have "at_pos printed (row_of out2) (col_of out2) = Some (tok_spelling t @ tail)"
    unfolding shape by (rule at_pos_append)
  then have "at_pos printed (unat (tok_line t) - 1) (unat (tok_column t) - 1) =
               Some (tok_spelling t @ tail)"
    by (simp only: r2 c2 ul uc)
  then have here: "emitted_at printed t"
    using t by (simp add: emitted_at_def)
  have "prefix out printed"
    unfolding shape out2_def out1_def by simp
  with run here others show ?case
    unfolding step by simp
qed


text \<open>
  For tokens whose spellings contain no line break, on lines and columns counted from 1, the
  printer does what C8 says: every token is emitted at its recorded line and column, and
  the output ends with a newline.
\<close>

lemma print_tokens_layout:
  assumes "placed_in_order ts"
    and "\<forall>t \<in> set ts. tok_line t \<noteq> 0 \<and> tok_column t \<noteq> 0 \<and> nl \<notin> set (tok_spelling t)"
  shows "\<exists>printed. print_tokens ts = Inr printed \<and> (\<forall>t \<in> set ts. emitted_at printed t)
           \<and> printed \<noteq> [] \<and> last printed = nl"
proof -
  have "\<exists>printed. print_loop ts 0 0 [] = Inr printed \<and> prefix [] printed
           \<and> (\<forall>t \<in> set ts. emitted_at printed t)"
  proof (rule print_loop_layout [OF assms])
    show "row_of [] = unat (0 :: c_unsigned)" by (simp add: row_of_def)
  next
    fix t ts'
    assume "ts = t # ts'"
    with assms(2) have "tok_column t \<noteq> 0" by simp
    then show "unat (0 :: c_unsigned) \<le> unat (tok_line t) - 1 \<and>
           (unat (0 :: c_unsigned) = unat (tok_line t) - 1 \<longrightarrow>
              unat (0 :: c_unsigned) = col_of [] \<and> col_of [] \<le> unat (tok_column t) - 1)"
      by (simp add: col_of_def)
  qed
  then obtain printed where
    run: "print_loop ts 0 0 [] = Inr printed" and all: "\<forall>t \<in> set ts. emitted_at printed t"
    by blast
  from print_loop_ends_with_newline [OF run] run all show ?thesis
    by (simp add: print_tokens_def)
qed

lemma comment_tokens_in_order: "placed_in_order comment_tokens"
  by (simp add: comment_tokens_def tok_def)

text \<open>
  C8 does not hold of the code when a spelling contains a line break. The printer advances
  \<open>cpos\<close> by the length of the spelling and leaves \<open>lnum\<close> as it was, so after the comment
  of two lines it believes it is still on the first line: for the token \<open>x\<close>, recorded at
  line 3, it prints two more newlines, and \<open>x\<close> comes out on line 4. Line 3 of the output
  is empty.
\<close>

theorem printer_multiline_token:
  "print_tokens comment_tokens =
     Inr (''/* a'' @ [nl] @ ''   b */'' @ [nl, nl] @ ''x'' @ [nl])
   \<and> at_pos (''/* a'' @ [nl] @ ''   b */'' @ [nl, nl] @ ''x'' @ [nl]) 2 0 = Some ([nl] @ ''x'' @ [nl])
   \<and> \<not> emitted_at (''/* a'' @ [nl] @ ''   b */'' @ [nl, nl] @ ''x'' @ [nl]) (tok ''x'' 3 1)"
  by code_simp


end
